theory Spec2Isabelle
  imports Complex_Main
begin

section \<open>JavaScript numbers\<close>

text \<open>
  A JavaScript number is an IEEE 754 double. The finite doubles are the rationals
  \<open>m * 2 ^ q\<close> with \<open>\<bar>m\<bar> \<le> 2 ^ 53\<close>, \<open>q \<ge> - 1074\<close> and magnitude below \<open>2 ^ 1024\<close>; a
  finite number is modelled by the rational it denotes, next to the three non-finite
  values. The sign of zero is not tracked: a zero divisor counts as positive zero, which
  is what a difference \<open>max - min\<close> of equal coordinates yields.
\<close>

datatype jsnum = Num rat | PInf | NInf | NaN

subsection \<open>Rounding to the nearest double\<close>

text \<open>
  \<open>normal r\<close> is the rational \<open>r\<close> itself, written as a fraction in lowest terms.
  \<open>ilog_up x\<close> is the integer part of the binary logarithm of a rational \<open>x \<ge> 1\<close>,
  \<open>pow2 k\<close> the power \<open>2 ^ k\<close> for \<open>k \<ge> 0\<close> by repeated squaring, \<open>two_power q\<close> the
  power of two with an integer exponent, and \<open>ilog2 x\<close> the integer \<open>e\<close> with
  \<open>2 ^ e \<le> x < 2 ^ (e + 1)\<close> for a rational \<open>x > 0\<close>.
\<close>

definition normal :: "rat \<Rightarrow> rat" where
  "normal r = (case quotient_of r of (p, q) \<Rightarrow> Fract p q)"

function ilog_up :: "rat \<Rightarrow> int" where
  "ilog_up x = (if x < 2 then 0 else ilog_up (normal (x / 2)) + 1)"
  by pat_completeness auto
termination
proof (relation "measure (\<lambda>x. nat \<lfloor>x\<rfloor>)")
  fix x :: rat
  assume "\<not> x < 2"
  moreover have "normal (x / 2) = x / 2"
    by (auto simp: normal_def Fract_of_int_quotient dest!: quotient_of_div split: prod.splits)
  ultimately show "(normal (x / 2), x) \<in> measure (\<lambda>x. nat \<lfloor>x\<rfloor>)"
    by (auto simp: floor_less_iff less_floor_iff, linarith)
qed simp

declare ilog_up.simps [simp del]

definition square :: "int \<Rightarrow> int" where
  "square y = y * y"

function pow2 :: "int \<Rightarrow> int" where
  "pow2 k = (if k \<le> 0 then 1
             else if even k then square (pow2 (k div 2))
             else 2 * square (pow2 (k div 2)))"
  by pat_completeness auto
termination
  by (relation "measure nat") auto

declare pow2.simps [simp del]

definition two_power :: "int \<Rightarrow> rat" where
  "two_power q = (if 0 \<le> q then Fract (pow2 q) 1 else Fract 1 (pow2 (- q)))"

definition below :: "int \<Rightarrow> rat \<Rightarrow> int" where
  "below k x = (if two_power (- k) \<le> x then - k else - k - 1)"

definition ilog2 :: "rat \<Rightarrow> int" where
  "ilog2 x = (if 1 \<le> x then ilog_up x else below (ilog_up (normal (1 / x))) x)"

text \<open>
  The doubles around a rational \<open>x > 0\<close> are the multiples of \<open>2 ^ expo x\<close>: 53
  significant bits, and the spacing \<open>2 ^ (- 1074)\<close> of the subnormal numbers at the
  least. \<open>rhe y\<close> is the integer nearest to \<open>y\<close>, the even one of the two when \<open>y\<close>
  lies half-way. The rounded value \<open>m * 2 ^ q\<close> has \<open>m \<le> 2 ^ 53\<close>; it is beyond the
  largest double, \<open>(2 ^ 53 - 1) * 2 ^ 971\<close>, when \<open>q > 971\<close> or when \<open>q = 971\<close> and
  \<open>m = 2 ^ 53\<close>, and then the result is infinite.
\<close>

definition nearest :: "int \<Rightarrow> rat \<Rightarrow> int" where
  "nearest n y =
     (if y - of_int n < 1 / 2 then n
      else if 1 / 2 < y - of_int n then n + 1
      else if even n then n else n + 1)"

definition rhe :: "rat \<Rightarrow> int" where
  "rhe y = nearest \<lfloor>y\<rfloor> y"

definition expo :: "rat \<Rightarrow> int" where
  "expo x = max (ilog2 x - 52) (- 1074)"

definition finite_or_inf :: "int \<Rightarrow> int \<Rightarrow> jsnum" where
  "finite_or_inf q m =
     (if 971 < q \<or> (q = 971 \<and> 9007199254740992 \<le> m) then PInf
      else Num (normal (of_int m * two_power q)))"

definition round_pos :: "int \<Rightarrow> rat \<Rightarrow> jsnum" where
  "round_pos q x = finite_or_inf q (rhe (normal (x / two_power q)))"

fun jneg :: "jsnum \<Rightarrow> jsnum" where
  "jneg (Num a) = Num (- a)"
| "jneg PInf = NInf"
| "jneg NInf = PInf"
| "jneg NaN = NaN"

text \<open>
  \<open>double x\<close> is the double nearest to the rational \<open>x\<close>, ties to even: the value of a
  number literal of the source, and the result of an arithmetic operation whose exact
  result is \<open>x\<close>.
\<close>

definition round_double :: "rat \<Rightarrow> jsnum" where
  "round_double x =
     (if x = 0 then Num 0
      else if 0 < x then round_pos (expo x) x
      else jneg (round_pos (expo (- x)) (normal (- x))))"

definition double :: "rat \<Rightarrow> jsnum" where
  "double x = round_double (normal x)"

subsection \<open>Arithmetic and comparison\<close>

fun jadd :: "jsnum \<Rightarrow> jsnum \<Rightarrow> jsnum" where
  "jadd (Num a) (Num b) = double (a + b)"
| "jadd NaN _ = NaN"
| "jadd _ NaN = NaN"
| "jadd PInf NInf = NaN"
| "jadd NInf PInf = NaN"
| "jadd PInf _ = PInf"
| "jadd NInf _ = NInf"
| "jadd _ PInf = PInf"
| "jadd _ NInf = NInf"

definition jsub :: "jsnum \<Rightarrow> jsnum \<Rightarrow> jsnum" where
  "jsub a b = jadd a (jneg b)"

fun jmul :: "jsnum \<Rightarrow> jsnum \<Rightarrow> jsnum" where
  "jmul (Num a) (Num b) = double (a * b)"
| "jmul NaN _ = NaN"
| "jmul _ NaN = NaN"
| "jmul (Num a) PInf = (if a = 0 then NaN else if 0 < a then PInf else NInf)"
| "jmul (Num a) NInf = (if a = 0 then NaN else if 0 < a then NInf else PInf)"
| "jmul PInf (Num b) = (if b = 0 then NaN else if 0 < b then PInf else NInf)"
| "jmul NInf (Num b) = (if b = 0 then NaN else if 0 < b then NInf else PInf)"
| "jmul PInf PInf = PInf"
| "jmul PInf NInf = NInf"
| "jmul NInf PInf = NInf"
| "jmul NInf NInf = PInf"

fun jdiv :: "jsnum \<Rightarrow> jsnum \<Rightarrow> jsnum" where
  "jdiv (Num a) (Num b) =
     (if b = 0 then (if a = 0 then NaN else if 0 < a then PInf else NInf)
      else double (a / b))"
| "jdiv NaN _ = NaN"
| "jdiv _ NaN = NaN"
| "jdiv (Num a) PInf = Num 0"
| "jdiv (Num a) NInf = Num 0"
| "jdiv PInf (Num b) = (if 0 \<le> b then PInf else NInf)"
| "jdiv NInf (Num b) = (if 0 \<le> b then NInf else PInf)"
| "jdiv PInf PInf = NaN"
| "jdiv PInf NInf = NaN"
| "jdiv NInf PInf = NaN"
| "jdiv NInf NInf = NaN"

text \<open>The comparison \<open>a < b\<close>: false as soon as one side is NaN.\<close>

fun jless :: "jsnum \<Rightarrow> jsnum \<Rightarrow> bool" where
  "jless (Num a) (Num b) = (a < b)"
| "jless NaN _ = False"
| "jless _ NaN = False"
| "jless NInf NInf = False"
| "jless NInf _ = True"
| "jless PInf _ = False"
| "jless (Num a) PInf = True"
| "jless (Num a) NInf = False"

text \<open>Strict equality \<open>a === b\<close>: NaN equals nothing, itself included.\<close>

definition jseq :: "jsnum \<Rightarrow> jsnum \<Rightarrow> bool" where
  "jseq a b = (if a = NaN then False else a = b)"

text \<open>\<open>Math.min\<close> and \<open>Math.max\<close> of two arguments: NaN as soon as one argument is.\<close>

definition jmin :: "jsnum \<Rightarrow> jsnum \<Rightarrow> jsnum" where
  "jmin a b = (if a = NaN then NaN else if b = NaN then NaN else if jless b a then b else a)"

definition jmax :: "jsnum \<Rightarrow> jsnum \<Rightarrow> jsnum" where
  "jmax a b = (if a = NaN then NaN else if b = NaN then NaN else if jless a b then b else a)"

subsection \<open>Auxiliary notions for the proofs about numbers\<close>

text \<open>
  The rounded value of a rational \<open>x > 0\<close> before the test for overflow, the rationals
  that are doubles, the numbers that an operation can return, and the order of the
  numbers other than NaN.
\<close>

definition rnd :: "rat \<Rightarrow> rat" where
  "rnd x = of_int (rhe (x / two_power (expo x))) * two_power (expo x)"

definition is_double :: "rat \<Rightarrow> bool" where
  "is_double x = (double x = Num x)"

fun representable :: "jsnum \<Rightarrow> bool" where
  "representable (Num a) = is_double a"
| "representable _ = True"

definition jle :: "jsnum \<Rightarrow> jsnum \<Rightarrow> bool" where
  "jle a b = (a \<noteq> NaN \<and> b \<noteq> NaN \<and> \<not> jless b a)"

section \<open>Vectors, matrices, boxes and objects of the 3D library\<close>

record vector3 =
  vx :: jsnum
  vy :: jsnum
  vz :: jsnum

definition vec :: "jsnum \<Rightarrow> jsnum \<Rightarrow> jsnum \<Rightarrow> vector3" where
  "vec a b c = \<lparr>vx = a, vy = b, vz = c\<rparr>"

definition multiplyScalar :: "vector3 \<Rightarrow> jsnum \<Rightarrow> vector3" where
  "multiplyScalar v s = vec (jmul (vx v) s) (jmul (vy v) s) (jmul (vz v) s)"

text \<open>
  An object of the scene graph, as far as framing reads and writes it: its position, its
  scale, and the points of its geometry in its own frame. The object has no rotation when
  it is framed (a freshly loaded scene root).
\<close>

record object3d =
  position :: vector3
  scale :: vector3
  geometry :: "(rat \<times> rat \<times> rat) list"

text \<open>
  \<open>Matrix4\<close> of the library, with its sixteen elements in the order of the array
  \<open>elements\<close> (column by column). \<open>compose\<close> builds the matrix of a position, the
  identity rotation and a scale: the rotation part of the identity quaternion has the
  entries 1 on the diagonal and 0 elsewhere, and each is multiplied by the scale of its
  column, so that an entry off the diagonal is \<open>0 * scale\<close>, which is NaN for an infinite
  scale.
\<close>

datatype matrix4 =
  Matrix4 jsnum jsnum jsnum jsnum jsnum jsnum jsnum jsnum
          jsnum jsnum jsnum jsnum jsnum jsnum jsnum jsnum

definition compose :: "vector3 \<Rightarrow> vector3 \<Rightarrow> matrix4" where
  "compose p s =
     Matrix4 (jmul (Num 1) (vx s)) (jmul (Num 0) (vx s)) (jmul (Num 0) (vx s)) (Num 0)
             (jmul (Num 0) (vy s)) (jmul (Num 1) (vy s)) (jmul (Num 0) (vy s)) (Num 0)
             (jmul (Num 0) (vz s)) (jmul (Num 0) (vz s)) (jmul (Num 1) (vz s)) (Num 0)
             (vx p) (vy p) (vz p) (Num 1)"

text \<open>\<open>a * e + b * f + c * g + d * h\<close>, summed from the left.\<close>

definition dot4 ::
  "jsnum \<Rightarrow> jsnum \<Rightarrow> jsnum \<Rightarrow> jsnum \<Rightarrow> jsnum \<Rightarrow> jsnum \<Rightarrow> jsnum \<Rightarrow> jsnum \<Rightarrow> jsnum" where
  "dot4 a b c d e f g h = jadd (jadd (jadd (jmul a e) (jmul b f)) (jmul c g)) (jmul d h)"

fun multiplyMatrices :: "matrix4 \<Rightarrow> matrix4 \<Rightarrow> matrix4" where
  "multiplyMatrices (Matrix4 a11 a21 a31 a41 a12 a22 a32 a42 a13 a23 a33 a43 a14 a24 a34 a44)
                    (Matrix4 b11 b21 b31 b41 b12 b22 b32 b42 b13 b23 b33 b43 b14 b24 b34 b44) =
     Matrix4 (dot4 a11 a12 a13 a14 b11 b21 b31 b41) (dot4 a21 a22 a23 a24 b11 b21 b31 b41)
             (dot4 a31 a32 a33 a34 b11 b21 b31 b41) (dot4 a41 a42 a43 a44 b11 b21 b31 b41)
             (dot4 a11 a12 a13 a14 b12 b22 b32 b42) (dot4 a21 a22 a23 a24 b12 b22 b32 b42)
             (dot4 a31 a32 a33 a34 b12 b22 b32 b42) (dot4 a41 a42 a43 a44 b12 b22 b32 b42)
             (dot4 a11 a12 a13 a14 b13 b23 b33 b43) (dot4 a21 a22 a23 a24 b13 b23 b33 b43)
             (dot4 a31 a32 a33 a34 b13 b23 b33 b43) (dot4 a41 a42 a43 a44 b13 b23 b33 b43)
             (dot4 a11 a12 a13 a14 b14 b24 b34 b44) (dot4 a21 a22 a23 a24 b14 b24 b34 b44)
             (dot4 a31 a32 a33 a34 b14 b24 b34 b44) (dot4 a41 a42 a43 a44 b14 b24 b34 b44)"

text \<open>
  \<open>Vector3.applyMatrix4\<close>: the point is multiplied by the matrix and divided by the
  fourth coordinate of the product.
\<close>

fun applyMatrix4 :: "matrix4 \<Rightarrow> rat \<times> rat \<times> rat \<Rightarrow> vector3" where
  "applyMatrix4 (Matrix4 e0 e1 e2 e3 e4 e5 e6 e7 e8 e9 e10 e11 e12 e13 e14 e15) (x, y, z) =
     (let w = jdiv (Num 1) (jadd (jadd (jadd (jmul e3 (Num x)) (jmul e7 (Num y))) (jmul e11 (Num z))) e15)
      in vec (jmul (jadd (jadd (jadd (jmul e0 (Num x)) (jmul e4 (Num y))) (jmul e8 (Num z))) e12) w)
             (jmul (jadd (jadd (jadd (jmul e1 (Num x)) (jmul e5 (Num y))) (jmul e9 (Num z))) e13) w)
             (jmul (jadd (jadd (jadd (jmul e2 (Num x)) (jmul e6 (Num y))) (jmul e10 (Num z))) e14) w))"

text \<open>
  The world matrix of an object without a parent is its own matrix; a point of the
  geometry is taken to world space by it.
\<close>

definition matrixWorld :: "object3d \<Rightarrow> matrix4" where
  "matrixWorld ob = compose (position ob) (scale ob)"

definition localToWorld :: "object3d \<Rightarrow> rat \<times> rat \<times> rat \<Rightarrow> vector3" where
  "localToWorld ob v = applyMatrix4 (matrixWorld ob) v"

text \<open>
  \<open>Box3\<close> of the library: an empty box has \<open>min = +Infinity\<close> and \<open>max = -Infinity\<close>,
  a point is added by componentwise \<open>Math.min\<close>/\<open>Math.max\<close>, and the size and the
  centre of an empty box are the zero vector.
\<close>

record box3 =
  box_min :: vector3
  box_max :: vector3

definition makeEmpty :: box3 where
  "makeEmpty = \<lparr>box_min = vec PInf PInf PInf, box_max = vec NInf NInf NInf\<rparr>"

definition expandByPoint :: "box3 \<Rightarrow> vector3 \<Rightarrow> box3" where
  "expandByPoint b p =
     \<lparr>box_min = vec (jmin (vx (box_min b)) (vx p)) (jmin (vy (box_min b)) (vy p))
                    (jmin (vz (box_min b)) (vz p)),
      box_max = vec (jmax (vx (box_max b)) (vx p)) (jmax (vy (box_max b)) (vy p))
                    (jmax (vz (box_max b)) (vz p))\<rparr>"

fun setFromPoints :: "box3 \<Rightarrow> vector3 list \<Rightarrow> box3" where
  "setFromPoints b [] = b"
| "setFromPoints b (p # ps) = setFromPoints (expandByPoint b p) ps"

definition setFromObject :: "object3d \<Rightarrow> box3" where
  "setFromObject ob = setFromPoints makeEmpty (map (localToWorld ob) (geometry ob))"

definition isEmpty :: "box3 \<Rightarrow> bool" where
  "isEmpty b = (jless (vx (box_max b)) (vx (box_min b))
              \<or> jless (vy (box_max b)) (vy (box_min b))
              \<or> jless (vz (box_max b)) (vz (box_min b)))"

definition getSize :: "box3 \<Rightarrow> vector3" where
  "getSize b =
     (if isEmpty b then vec (Num 0) (Num 0) (Num 0)
      else vec (jsub (vx (box_max b)) (vx (box_min b)))
               (jsub (vy (box_max b)) (vy (box_min b)))
               (jsub (vz (box_max b)) (vz (box_min b))))"

definition getCenter :: "box3 \<Rightarrow> vector3" where
  "getCenter b =
     (if isEmpty b then vec (Num 0) (Num 0) (Num 0)
      else multiplyScalar
             (vec (jadd (vx (box_min b)) (vx (box_max b)))
                  (jadd (vy (box_min b)) (vy (box_max b)))
                  (jadd (vz (box_min b)) (vz (box_max b))))
             (Num (1 / 2)))"

section \<open>Framing: \<open>Viewer.setContent\<close>\<close>

definition gridSize :: jsnum where
  "gridSize = Num 10"

definition targetSize :: jsnum where
  "targetSize = jmul gridSize (Num (1 / 2))"

definition maxDimension :: "object3d \<Rightarrow> jsnum" where
  "maxDimension ob =
     (let boxSize = getSize (setFromObject ob)
      in jmax (jmax (vx boxSize) (vy boxSize)) (vz boxSize))"

text \<open>
  The rescaling step of \<open>setContent\<close>: when the largest dimension is not the target size,
  the object's scale is multiplied by \<open>targetSize / maxDimension\<close>.
\<close>

definition rescale :: "object3d \<Rightarrow> object3d" where
  "rescale ob =
     (if \<not> jseq (maxDimension ob) targetSize
      then ob\<lparr>scale := multiplyScalar (scale ob) (jdiv targetSize (maxDimension ob))\<rparr>
      else ob)"

text \<open>
  \<open>setContent\<close>, as far as it transforms the object: the rescaling, the bounding box taken
  again after it, and the move that centres the object on X and Z and puts its base on
  the grid. The camera's clip planes and the orbit bounds, which \<open>setContent\<close> derives from
  the length of the box's diagonal, are not part of this model.
\<close>

definition setContent :: "object3d \<Rightarrow> object3d" where
  "setContent ob =
     (let ob1 = rescale ob;
          box = setFromObject ob1;
          center = getCenter box
      in ob1\<lparr>position :=
              vec (jsub (vx (position ob1)) (vx center))
                  (jsub (vy (position ob1)) (vy (box_min box)))
                  (jsub (vz (position ob1)) (vz center))\<rparr>)"

subsection \<open>The loader of the standalone page\<close>

text \<open>
  The success callback of \<open>loadModel\<close> in \<open>app.js\<close>, as far as it places the scene. The
  scene has just been added to the group \<open>car\<close>, which is at the origin, without rotation,
  and whose world matrix still carries the scale \<open>carScale\<close> that the group had when the
  last frame was rendered: \<open>(1, 1, 1)\<close> on the first load, the scale set by the previous
  load afterwards. The bounding box of the scene is taken under that matrix, the scene's
  position is set to the negated centre on X and Z and the negated minimum on Y, and the
  group is given the scale \<open>autoScale * modelConfig.scale\<close> with
  \<open>modelConfig.scale = 1.0\<close>. The result is the scene and the new scale of the group.
\<close>

definition setFromChild :: "vector3 \<Rightarrow> object3d \<Rightarrow> box3" where
  "setFromChild carScale ob =
     setFromPoints makeEmpty
       (map (applyMatrix4
               (multiplyMatrices (compose (vec (Num 0) (Num 0) (Num 0)) carScale) (matrixWorld ob)))
            (geometry ob))"

definition app_loadModel :: "vector3 \<Rightarrow> object3d \<Rightarrow> object3d \<times> vector3" where
  "app_loadModel carScale ob =
     (let box = setFromChild carScale ob;
          center = getCenter box;
          size = getSize box;
          ob1 = ob\<lparr>position := vec (jneg (vx center)) (jneg (vy (box_min box))) (jneg (vz center))\<rparr>;
          maxDimension = jmax (jmax (vx size) (vy size)) (vz size);
          targetSize = Num 4;
          autoScale = (if jless targetSize maxDimension then jdiv targetSize maxDimension else Num 1)
      in (ob1, vec (jmul autoScale (Num 1)) (jmul autoScale (Num 1)) (jmul autoScale (Num 1))))"

subsection \<open>Auxiliary notions for the framing proofs\<close>

text \<open>
  The least and the greatest element of a non-empty list of rationals, and the three
  coordinates of a point of the geometry.
\<close>

definition lo :: "rat list \<Rightarrow> rat" where
  "lo xs = foldl min (hd xs) (tl xs)"

definition hi :: "rat list \<Rightarrow> rat" where
  "hi xs = foldl max (hd xs) (tl xs)"

text \<open>
  The centre of an interval and the shift of its bounds by the centre are computed without
  rounding: the sum of the bounds, its half and the two differences are doubles.
\<close>

definition exact_centre :: "rat \<Rightarrow> rat \<Rightarrow> bool" where
  "exact_centre l h =
     (is_double (l + h) \<and> is_double ((l + h) / 2)
      \<and> is_double (l - (l + h) / 2) \<and> is_double (h - (l + h) / 2))"

text \<open>
  Three scenes: the box from \<open>(-2, 0, -1)\<close> to \<open>(2, 4, 1)\<close>, given by two opposite corners,
  the box from \<open>(1, 1, 1)\<close> to \<open>(8, 4, 2)\<close>, and a scene whose geometry is a single point.
\<close>

definition example_scene :: object3d where
  "example_scene =
     \<lparr>position = vec (Num 0) (Num 0) (Num 0), scale = vec (Num 1) (Num 1) (Num 1),
      geometry = [(- 2, 0, - 1), (2, 4, 1)]\<rparr>"

definition offset_scene :: object3d where
  "offset_scene =
     \<lparr>position = vec (Num 0) (Num 0) (Num 0), scale = vec (Num 1) (Num 1) (Num 1),
      geometry = [(1, 1, 1), (8, 4, 2)]\<rparr>"

definition single_point :: object3d where
  "single_point =
     \<lparr>position = vec (Num 0) (Num 0) (Num 0), scale = vec (Num 1) (Num 1) (Num 1),
      geometry = [(0, 0, 0)]\<rparr>"

section \<open>The thumbnail state of the page script\<close>

text \<open>
  The module-level variables of \<open>app.js\<close> that the capture and the 2D composite read and
  write. A frame is what one call of the 3D renderer puts on its surface, as far as the
  capture changes it: the scene background, whether the grid is drawn, and the clear
  colour with its alpha. An image is a frame read back from the surface, with the size it
  has once decoded (0 by 0 before). The surface of the 2D canvas is the list of drawing
  calls made since it was last cleared in full; equal lists give equal pixels.
\<close>

record point2 =
  ptx :: jsnum
  pty :: jsnum

record frame =
  f_background :: "int option"
  f_grid :: bool
  f_clearColor :: "int \<times> int"

record image =
  src :: frame
  img_width :: jsnum
  img_height :: jsnum

datatype draw =
    FillRect string jsnum
  | DrawGuides jsnum
  | DrawImage image jsnum jsnum jsnum jsnum jsnum

record dom_rect =
  r_left :: jsnum
  r_top :: jsnum
  r_width :: jsnum
  r_height :: jsnum

record canvas =
  c_width :: jsnum
  c_height :: jsnum
  c_rect :: dom_rect
  surface :: "draw list"

record context2d =
  fillStyle :: string
  globalAlpha :: jsnum

record thumb =
  thumbnailCanvas :: "canvas option"
  thumbnailCtx :: "context2d option"
  thumbnailImage :: "image option"
  thumbnailOffset :: point2
  thumbnailDragging :: bool
  thumbnailDragStart :: point2
  thumbnailScale :: jsnum
  guidesImage :: "bool option"
  showThumbnailGuides :: bool
  isLiveUpdating :: bool
  lastThumbnailUpdate :: int
  hasUserInteracted :: bool
  newSnapshotData :: "frame option"

text \<open>
  \<open>guidesImage\<close> is \<open>None\<close> for \<open>null\<close> and otherwise holds the image's \<open>complete\<close>
  flag. The scene of \<open>app.js\<close>: its background (\<open>None\<close> for \<open>null\<close>), the renderer's
  clear colour and alpha, the grid helper's \<open>visible\<close> flag (\<open>None\<close> when there is no
  grid helper), and the frames the capture has rendered so far.
\<close>

record app = thumb +
  background :: "int option"
  clearColor :: "int \<times> int"
  gridHelper :: "bool option"
  rendered :: "frame list"

datatype error = TypeError | URIError | NoScene | LoaderError

subsection \<open>\<open>renderThumbnail\<close>\<close>

definition drawOn :: "draw \<Rightarrow> canvas \<Rightarrow> canvas" where
  "drawOn d c = c\<lparr>surface := surface c @ [d]\<rparr>"

definition clearRect :: "canvas \<Rightarrow> canvas" where
  "clearRect c = c\<lparr>surface := []\<rparr>"

text \<open>The background fill of the composite, when it is asked for.\<close>

definition fillBackground :: "bool \<Rightarrow> canvas \<times> context2d \<Rightarrow> canvas \<times> context2d" where
  "fillBackground includeBackground cc =
     (case cc of (c, ctx) \<Rightarrow>
        if includeBackground
        then (drawOn (FillRect ''#121212'' (globalAlpha ctx)) c, ctx\<lparr>fillStyle := ''#121212''\<rparr>)
        else (c, ctx))"

text \<open>The guides layer at 30% opacity, drawn when asked for and when the guides image is loaded.\<close>

definition drawGuides :: "bool \<Rightarrow> bool option \<Rightarrow> canvas \<times> context2d \<Rightarrow> canvas \<times> context2d" where
  "drawGuides shouldShowGrid guides cc =
     (case cc of (c, ctx) \<Rightarrow>
        if shouldShowGrid \<and> guides = Some True
        then (drawOn (DrawGuides (double (3 / 10))) c, ctx\<lparr>globalAlpha := Num 1\<rparr>)
        else (c, ctx))"

text \<open>The snapshot, fitted to the canvas, scaled by \<open>thumbnailScale\<close> and moved by the offset.\<close>

definition drawSnapshot :: "image \<Rightarrow> jsnum \<Rightarrow> point2 \<Rightarrow> canvas \<times> context2d \<Rightarrow> canvas \<times> context2d" where
  "drawSnapshot img sc off cc =
     (case cc of (c, ctx) \<Rightarrow>
        let baseScale = jmin (jdiv (c_width c) (img_width img)) (jdiv (c_height c) (img_height img));
            scaledWidth = jmul (jmul (img_width img) baseScale) sc;
            scaledHeight = jmul (jmul (img_height img) baseScale) sc;
            centerX = jdiv (jsub (c_width c) scaledWidth) (Num 2);
            centerY = jdiv (jsub (c_height c) scaledHeight) (Num 2)
        in (drawOn (DrawImage img (jadd centerX (ptx off)) (jadd centerY (pty off))
                      scaledWidth scaledHeight (globalAlpha ctx)) c, ctx))"

text \<open>
  \<open>renderThumbnail(includeGrid = null, includeBackground = true)\<close>: \<open>includeGrid\<close> is
  \<open>None\<close> for \<open>null\<close>, and then the guides follow \<open>showThumbnailGuides\<close>.
\<close>

definition renderThumbnail :: "bool option \<Rightarrow> bool \<Rightarrow> 'a thumb_scheme \<Rightarrow> 'a thumb_scheme" where
  "renderThumbnail includeGrid includeBackground s =
     (case (thumbnailCanvas s, thumbnailCtx s, thumbnailImage s) of
        (Some c, Some ctx, Some img) \<Rightarrow>
          let shouldShowGrid = (case includeGrid of Some g \<Rightarrow> g | None \<Rightarrow> showThumbnailGuides s);
              cc = drawSnapshot img (thumbnailScale s) (thumbnailOffset s)
                     (drawGuides shouldShowGrid (guidesImage s)
                        (fillBackground includeBackground (clearRect c, ctx)))
          in s\<lparr>thumbnailCanvas := Some (fst cc), thumbnailCtx := Some (snd cc)\<rparr>
      | _ \<Rightarrow> s)"

subsection \<open>Pointer and wheel handlers of the 2D canvas\<close>

record mouse_event =
  clientX :: jsnum
  clientY :: jsnum

text \<open>
  The pointer position in canvas coordinates, as both mouse handlers compute it from the
  canvas's bounding rectangle: \<open>(clientX - rect.left) * (canvas.width / rect.width)\<close>.
\<close>

definition canvasPoint :: "canvas \<Rightarrow> mouse_event \<Rightarrow> point2" where
  "canvasPoint c ev =
     (let scaleX = jdiv (c_width c) (r_width (c_rect c));
          scaleY = jdiv (c_height c) (r_height (c_rect c))
      in \<lparr>ptx = jmul (jsub (clientX ev) (r_left (c_rect c))) scaleX,
          pty = jmul (jsub (clientY ev) (r_top (c_rect c))) scaleY\<rparr>)"

text \<open>
  The handlers read \<open>thumbnailCanvas.getBoundingClientRect()\<close>, which raises a
  \<open>TypeError\<close> when there is no canvas.
\<close>

definition onThumbnailMouseDown :: "mouse_event \<Rightarrow> 'a thumb_scheme \<Rightarrow> error + 'a thumb_scheme" where
  "onThumbnailMouseDown ev s =
     (case thumbnailCanvas s of
        None \<Rightarrow> Inl TypeError
      | Some c \<Rightarrow>
          Inr (s\<lparr>thumbnailDragging := True,
                 thumbnailDragStart :=
                   \<lparr>ptx = jsub (ptx (canvasPoint c ev)) (ptx (thumbnailOffset s)),
                    pty = jsub (pty (canvasPoint c ev)) (pty (thumbnailOffset s))\<rparr>\<rparr>))"

definition onThumbnailMouseMove :: "mouse_event \<Rightarrow> 'a thumb_scheme \<Rightarrow> error + 'a thumb_scheme" where
  "onThumbnailMouseMove ev s =
     (if \<not> thumbnailDragging s then Inr s
      else case thumbnailCanvas s of
        None \<Rightarrow> Inl TypeError
      | Some c \<Rightarrow>
          Inr (renderThumbnail None True
                 (s\<lparr>thumbnailOffset :=
                      \<lparr>ptx = jsub (ptx (canvasPoint c ev)) (ptx (thumbnailDragStart s)),
                       pty = jsub (pty (canvasPoint c ev)) (pty (thumbnailDragStart s))\<rparr>\<rparr>)))"

definition onThumbnailMouseUp :: "'a thumb_scheme \<Rightarrow> 'a thumb_scheme" where
  "onThumbnailMouseUp s = s\<lparr>thumbnailDragging := False\<rparr>"

definition scaleSpeed :: jsnum where
  "scaleSpeed = double (25 / 1000)"

definition onThumbnailWheel :: "jsnum \<Rightarrow> 'a thumb_scheme \<Rightarrow> 'a thumb_scheme" where
  "onThumbnailWheel deltaY s =
     renderThumbnail None True
       (if jless deltaY (Num 0)
        then s\<lparr>thumbnailScale := jmin (Num 3) (jadd (thumbnailScale s) scaleSpeed)\<rparr>
        else s\<lparr>thumbnailScale := jmax (double (3 / 10)) (jsub (thumbnailScale s) scaleSpeed)\<rparr>)"

fun wheels :: "jsnum list \<Rightarrow> 'a thumb_scheme \<Rightarrow> 'a thumb_scheme" where
  "wheels [] s = s"
| "wheels (d # ds) s = wheels ds (onThumbnailWheel d s)"

text \<open>A drag from \<open>a\<close> to \<open>b\<close> and back to \<open>a\<close>: pointer down, two moves, pointer up.\<close>

definition dragThereAndBack ::
  "mouse_event \<Rightarrow> mouse_event \<Rightarrow> 'a thumb_scheme \<Rightarrow> error + 'a thumb_scheme" where
  "dragThereAndBack a b s =
     (case onThumbnailMouseDown a s of
        Inl e \<Rightarrow> Inl e
      | Inr s1 \<Rightarrow>
          (case onThumbnailMouseMove b s1 of
             Inl e \<Rightarrow> Inl e
           | Inr s2 \<Rightarrow>
               (case onThumbnailMouseMove a s2 of
                  Inl e \<Rightarrow> Inl e
                | Inr s3 \<Rightarrow> Inr (onThumbnailMouseUp s3))))"

subsection \<open>The export: the click handler of the use-snapshot button\<close>

text \<open>
  The handler renders the composite without guides and without background, reads the
  surface back (the second component of the result, \<open>None\<close> when the handler does
  nothing), and renders again with the default arguments. The changes it makes to buttons
  and to the current-thumbnail element are not part of this model.
\<close>

definition useSnapshot :: "'a thumb_scheme \<Rightarrow> 'a thumb_scheme \<times> draw list option" where
  "useSnapshot s =
     (if newSnapshotData s \<noteq> None \<and> thumbnailCanvas s \<noteq> None \<and> thumbnailCtx s \<noteq> None
      then let s1 = renderThumbnail (Some False) False s;
               finalImageData = map_option surface (thumbnailCanvas s1)
           in (renderThumbnail None True s1, finalImageData)
      else (s, None))"

subsection \<open>The capture of \<open>app.js\<close>: \<open>updateThumbnailFromViewport\<close>\<close>

definition THUMBNAIL_UPDATE_INTERVAL :: int where
  "THUMBNAIL_UPDATE_INTERVAL = 100"

text \<open>The frame the renderer draws for the scene as it is.\<close>

definition render :: "app \<Rightarrow> frame" where
  "render s = \<lparr>f_background = background s,
               f_grid = (gridHelper s = Some True),
               f_clearColor = clearColor s\<rparr>"

text \<open>
  The body of the capture after the throttle: background and grid are put aside, the scene
  is rendered on a transparent clear colour and read back, background, clear colour and
  grid are set again, and the snapshot is stored with a new image that is not yet decoded.
\<close>

definition capture :: "app \<Rightarrow> app" where
  "capture s =
     (let originalBackground = background s;
          s1 = s\<lparr>background := None\<rparr>;
          gridWasVisible = (case gridHelper s1 of Some v \<Rightarrow> v | None \<Rightarrow> False);
          s2 = (if gridHelper s1 \<noteq> None then s1\<lparr>gridHelper := Some False\<rparr> else s1);
          s3 = s2\<lparr>clearColor := (0, 0)\<rparr>;
          imageData = render s3;
          s4 = s3\<lparr>rendered := rendered s3 @ [imageData]\<rparr>;
          s5 = s4\<lparr>background := originalBackground, clearColor := (1184274, 1)\<rparr>;
          s6 = (if gridHelper s5 \<noteq> None then s5\<lparr>gridHelper := Some gridWasVisible\<rparr> else s5)
      in s6\<lparr>newSnapshotData := Some imageData,
             thumbnailImage := Some \<lparr>src = imageData, img_width = Num 0, img_height = Num 0\<rparr>\<rparr>)"

text \<open>
  \<open>updateThumbnailFromViewport\<close>, called at the time \<open>now\<close> (the value of
  \<open>Date.now()\<close>). The colour \<open>0x121212\<close> is 1184274.
\<close>

definition updateThumbnailFromViewport :: "int \<Rightarrow> app \<Rightarrow> app" where
  "updateThumbnailFromViewport now s =
     (if \<not> isLiveUpdating s \<or> thumbnailCanvas s = None \<or> thumbnailCtx s = None then s
      else if now - lastThumbnailUpdate s < THUMBNAIL_UPDATE_INTERVAL then s
      else capture (s\<lparr>lastThumbnailUpdate := now\<rparr>))"

fun requests :: "int list \<Rightarrow> app \<Rightarrow> app" where
  "requests [] s = s"
| "requests (t # ts) s = requests ts (updateThumbnailFromViewport t s)"

text \<open>Requests that are each at least one interval after the one before, the first after \<open>t0\<close>.\<close>

fun spaced :: "int \<Rightarrow> int list \<Rightarrow> bool" where
  "spaced t0 [] = True"
| "spaced t0 (t # ts) = (t - t0 \<ge> THUMBNAIL_UPDATE_INTERVAL \<and> spaced t ts)"

text \<open>Requests all within one interval: any two of them are less than the interval apart.\<close>

definition within_interval :: "int list \<Rightarrow> bool" where
  "within_interval ts = list_all (\<lambda>a. list_all (\<lambda>b. a - b < THUMBNAIL_UPDATE_INTERVAL) ts) ts"

subsection \<open>The other handlers of \<open>app.js\<close> that touch this state\<close>

text \<open>
  The state once the page has run \<open>init\<close> and \<open>initThumbnailCanvas\<close> with the canvas
  element \<open>c\<close> of the document: the scene has the background \<open>0x121212\<close> and a visible
  grid, the renderer the clear colour \<open>0x121212\<close> with alpha 1, the 2D canvas its first
  background fill, and live updating is on.
\<close>

definition startup :: "canvas \<Rightarrow> app" where
  "startup c =
     \<lparr>thumbnailCanvas = Some (drawOn (FillRect ''#121212'' (Num 1)) c),
      thumbnailCtx = Some \<lparr>fillStyle = ''#121212'', globalAlpha = Num 1\<rparr>,
      thumbnailImage = None,
      thumbnailOffset = \<lparr>ptx = Num 0, pty = Num 0\<rparr>,
      thumbnailDragging = False,
      thumbnailDragStart = \<lparr>ptx = Num 0, pty = Num 0\<rparr>,
      thumbnailScale = Num 1,
      guidesImage = Some False,
      showThumbnailGuides = True,
      isLiveUpdating = True,
      lastThumbnailUpdate = 0,
      hasUserInteracted = True,
      newSnapshotData = None,
      background = Some 1184274,
      clearColor = (1184274, 1),
      gridHelper = Some True,
      rendered = []\<rparr>"

text \<open>The \<open>onload\<close> of the guides image: the guides are drawn once over the canvas.\<close>

definition guidesImage_onload :: "'a thumb_scheme \<Rightarrow> 'a thumb_scheme" where
  "guidesImage_onload s =
     (case (thumbnailCanvas s, thumbnailCtx s) of
        (Some c, Some ctx) \<Rightarrow>
          s\<lparr>guidesImage := Some True,
            thumbnailCanvas := Some (drawOn (DrawGuides (double (3 / 10))) c),
            thumbnailCtx := Some (ctx\<lparr>globalAlpha := Num 1\<rparr>)\<rparr>
      | _ \<Rightarrow> s\<lparr>guidesImage := Some True\<rparr>)"

text \<open>
  The \<open>onload\<close> of the snapshot image: the image has the size of the renderer's surface,
  1200 by 1200, and the composite is rendered.
\<close>

definition thumbnailImage_onload :: "'a thumb_scheme \<Rightarrow> 'a thumb_scheme" where
  "thumbnailImage_onload s =
     renderThumbnail None True
       (s\<lparr>thumbnailImage :=
            map_option (\<lambda>i. i\<lparr>img_width := Num 1200, img_height := Num 1200\<rparr>) (thumbnailImage s)\<rparr>)"

text \<open>
  The grid button. \<open>active\<close> says whether the canvas element has the class \<open>active\<close>.
\<close>

definition toggleGrid :: "bool \<Rightarrow> app \<Rightarrow> app" where
  "toggleGrid active s =
     (case gridHelper s of
        None \<Rightarrow> s
      | Some v \<Rightarrow>
          let s1 = s\<lparr>gridHelper := Some (\<not> v), showThumbnailGuides := \<not> v\<rparr>
          in if thumbnailCanvas s1 \<noteq> None \<and> active \<and> thumbnailImage s1 \<noteq> None
             then renderThumbnail None True s1 else s1)"

definition clearThumbnailPreview :: "'a thumb_scheme \<Rightarrow> 'a thumb_scheme" where
  "clearThumbnailPreview s =
     s\<lparr>thumbnailOffset := \<lparr>ptx = Num 0, pty = Num 0\<rparr>, thumbnailScale := Num 1\<rparr>"

text \<open>A canvas element of 600 by 600 pixels shown at 300 by 300, and states reached from it.\<close>

definition canvas0 :: canvas where
  "canvas0 = \<lparr>c_width = Num 600, c_height = Num 600,
              c_rect = \<lparr>r_left = Num 10, r_top = Num 20, r_width = Num 300, r_height = Num 300\<rparr>,
              surface = []\<rparr>"

definition app1 :: app where
  "app1 = thumbnailImage_onload (updateThumbnailFromViewport 1000 (guidesImage_onload (startup canvas0)))"

definition app2 :: app where
  "app2 = toggleGrid True app1"

definition app2_stale :: app where
  "app2_stale = toggleGrid False app1"

section \<open>The viewer and the page script built on it\<close>

text \<open>
  The \<open>Viewer\<close> object of \<open>viewer.js\<close>, as far as loading and the capture use it: the
  scene background (\<open>None\<close> for \<open>null\<close>, otherwise a reference to the viewer's colour
  object \<open>backgroundColor\<close>; an environment map as background is not modelled), the
  value of that colour object, the renderer's clear colour and alpha, which
  \<open>setClearColor\<close> copies from its arguments, the \<open>grid\<close> option, the grid helper
  (\<open>None\<close> for \<open>null\<close>, otherwise whether it is a child of the scene), the content
  object, the content that is a child of the scene, and the frames the capture has
  rendered.
\<close>

datatype background = BackgroundColor

record viewer =
  scene_background :: "background option"
  backgroundColor :: int
  renderer_clearColor :: "int \<times> int"
  state_grid :: bool
  viewer_gridHelper :: "bool option"
  content :: "object3d option"
  attached :: "object3d option"
  viewer_rendered :: "frame list"

text \<open>
  The viewer as its constructor leaves it: background \<open>0x121212\<close>, clear colour
  \<open>0xcccccc\<close> (13421772) with alpha 1, grid option on, no grid helper yet, no content.
\<close>

definition new_Viewer :: viewer where
  "new_Viewer =
     \<lparr>scene_background = Some BackgroundColor, backgroundColor = 1184274,
      renderer_clearColor = (13421772, 1), state_grid = True, viewer_gridHelper = None,
      content = None, attached = None, viewer_rendered = []\<rparr>"

definition clear :: "viewer \<Rightarrow> viewer" where
  "clear v = (if content v = None then v else v\<lparr>attached := None\<rparr>)"

text \<open>
  \<open>updateDisplay\<close> first traverses the content, which raises a \<open>TypeError\<close> when there
  is none; then the grid helper is made or removed to follow the option.
\<close>

definition updateDisplay :: "viewer \<Rightarrow> error + viewer" where
  "updateDisplay v =
     (case content v of
        None \<Rightarrow> Inl TypeError
      | Some ob \<Rightarrow>
          Inr (if state_grid v \<noteq> (viewer_gridHelper v \<noteq> None)
               then (if state_grid v then v\<lparr>viewer_gridHelper := Some True\<rparr>
                     else v\<lparr>viewer_gridHelper := None\<rparr>)
               else v))"

text \<open>
  \<open>updateBackground\<close>, once the display options hold the colour \<open>bgColor\<close>: the colour
  object is set in place, so the scene background, which refers to it, shows the new
  colour, and the renderer's clear colour, which is a copy, does not change.
\<close>

definition updateBackground :: "int \<Rightarrow> viewer \<Rightarrow> viewer" where
  "updateBackground bgColor v = v\<lparr>backgroundColor := bgColor\<rparr>"

text \<open>
  The method \<open>setContent\<close> on the viewer: the old content is cleared, the object is framed
  and added to the scene, and the display is updated.
\<close>

definition Viewer_setContent :: "object3d \<Rightarrow> viewer \<Rightarrow> error + viewer" where
  "Viewer_setContent ob v =
     updateDisplay ((clear v)\<lparr>attached := Some (setContent ob), content := Some (setContent ob)\<rparr>)"

subsection \<open>Resolving the URLs of sub-resources\<close>

text \<open>
  \<open>String.prototype.replace\<close> with a string pattern and the empty replacement removes
  the first occurrence of the pattern, wherever it is.
\<close>

fun starts_with :: "string \<Rightarrow> string \<Rightarrow> bool" where
  "starts_with [] s = True"
| "starts_with (p # ps) [] = False"
| "starts_with (p # ps) (c # cs) = (p = c \<and> starts_with ps cs)"

fun remove_first :: "string \<Rightarrow> string \<Rightarrow> string" where
  "remove_first pat [] = []"
| "remove_first pat (c # cs) =
     (if starts_with pat (c # cs) then drop (length pat) (c # cs) else c # remove_first pat cs)"

text \<open>The replacement of \<open>/^(\.?\/)/\<close> by the empty string: a leading \<open>./\<close> or \<open>/\<close> is removed.\<close>

definition strip_leading :: "string \<Rightarrow> string" where
  "strip_leading s =
     (if starts_with ''./'' s then drop 2 s
      else if starts_with ''/'' s then drop 1 s
      else s)"

text \<open>
  The browser's store of object URLs: how many were created so far, and the blobs of
  those not yet revoked. The URL created next is identified by its number.
\<close>

record 'b browser =
  created :: nat
  objectURLs :: "nat \<rightharpoonup> 'b"

definition createObjectURL :: "'b \<Rightarrow> 'b browser \<Rightarrow> nat \<times> 'b browser" where
  "createObjectURL blob br =
     (created br, br\<lparr>created := Suc (created br), objectURLs := (objectURLs br)(created br \<mapsto> blob)\<rparr>)"

fun revokeAll :: "nat list \<Rightarrow> 'b browser \<Rightarrow> 'b browser" where
  "revokeAll [] br = br"
| "revokeAll (u # us) br = revokeAll us (br\<lparr>objectURLs := (objectURLs br)(u := None)\<rparr>)"

datatype resolved = BlobURL nat | Plain string

text \<open>
  The URL modifier that \<open>Viewer.load\<close> installs. \<open>decodeURI\<close> is the built-in function,
  which raises a \<open>URIError\<close> on a malformed escape sequence; \<open>path\<close> is the modifier's
  second argument (\<open>None\<close> when it is not passed); \<open>blobURLs\<close> is the list that \<open>load\<close>
  keeps of the object URLs it has created.
\<close>

definition urlModifier ::
  "(string \<Rightarrow> error + string) \<Rightarrow> string \<Rightarrow> string \<Rightarrow> (string \<rightharpoonup> 'b) \<Rightarrow>
   string \<Rightarrow> string option \<Rightarrow> nat list \<times> 'b browser \<Rightarrow> error + (resolved \<times> nat list \<times> 'b browser)" where
  "urlModifier decodeURI baseURL rootPath assetMap url path st =
     (case decodeURI url of
        Inl e \<Rightarrow> Inl e
      | Inr decoded \<Rightarrow>
          (let normalizedURL = rootPath @ strip_leading (remove_first baseURL decoded)
           in (case assetMap normalizedURL of
                 Some blob \<Rightarrow>
                   (let (blobURL, br) = createObjectURL blob (snd st)
                    in Inr (BlobURL blobURL, fst st @ [blobURL], br))
               | None \<Rightarrow> Inr (Plain ((case path of None \<Rightarrow> [] | Some p \<Rightarrow> p) @ url), st))))"

text \<open>
  The resolution as the specification words it: decode, strip the base URL when it is a
  prefix, strip a leading \<open>./\<close>, prepend the root path, look the result up, and pass the
  URL through unmodified when it is not found.
\<close>

definition spec_normalize :: "string \<Rightarrow> string \<Rightarrow> string \<Rightarrow> string" where
  "spec_normalize baseURL rootPath decoded =
     (let s1 = (if starts_with baseURL decoded then drop (length baseURL) decoded else decoded);
          s2 = (if starts_with ''./'' s1 then drop 2 s1 else s1)
      in rootPath @ s2)"

definition spec_urlModifier ::
  "(string \<Rightarrow> error + string) \<Rightarrow> string \<Rightarrow> string \<Rightarrow> (string \<rightharpoonup> 'b) \<Rightarrow>
   string \<Rightarrow> string option \<Rightarrow> nat list \<times> 'b browser \<Rightarrow> error + (resolved \<times> nat list \<times> 'b browser)" where
  "spec_urlModifier decodeURI baseURL rootPath assetMap url path st =
     (case decodeURI url of
        Inl e \<Rightarrow> Inl e
      | Inr decoded \<Rightarrow>
          (case assetMap (spec_normalize baseURL rootPath decoded) of
             Some blob \<Rightarrow>
               (let (blobURL, br) = createObjectURL blob (snd st)
                in Inr (BlobURL blobURL, fst st @ [blobURL], br))
           | None \<Rightarrow> Inr (Plain url, st)))"

subsection \<open>\<open>Viewer.load\<close>\<close>

record gltf =
  gltf_scene :: "object3d option"
  gltf_scenes :: "object3d list"

text \<open>What the glTF loader reports: a failure, or the parsed asset.\<close>

datatype outcome = Failed | Parsed gltf

text \<open>
  The success callback of \<open>load\<close>: the scene is \<open>gltf.scene || gltf.scenes[0]\<close>; without
  a scene an error is raised before anything is attached; otherwise the content is set and
  the object URLs created for this load are revoked.
\<close>

definition onLoad :: "gltf \<Rightarrow> nat list \<Rightarrow> viewer \<times> 'b browser \<Rightarrow> error + (viewer \<times> 'b browser)" where
  "onLoad g blobURLs st =
     (let scene = (case gltf_scene g of
                     Some sc \<Rightarrow> Some sc
                   | None \<Rightarrow> (case gltf_scenes g of [] \<Rightarrow> None | sc # _ \<Rightarrow> Some sc))
      in case scene of
           None \<Rightarrow> Inl NoScene
         | Some sc \<Rightarrow>
             (case Viewer_setContent sc (fst st) of
                Inl e \<Rightarrow> Inl e
              | Inr v \<Rightarrow> Inr (v, revokeAll blobURLs (snd st))))"

text \<open>
  \<open>load\<close>, given what the loader reports and the object URLs created while it ran. The
  promise is rejected when the loader fails, and also when the success callback raises:
  the loader passes an exception of its callback on to the error callback. The result is
  the settled promise (\<open>Inl\<close> rejected, \<open>Inr\<close> resolved) and the state.
\<close>

definition load :: "outcome \<Rightarrow> nat list \<Rightarrow> viewer \<times> 'b browser \<Rightarrow> (error + gltf) \<times> viewer \<times> 'b browser" where
  "load out blobURLs st =
     (case out of
        Failed \<Rightarrow> (Inl LoaderError, st)
      | Parsed g \<Rightarrow>
          (case onLoad g blobURLs st of
             Inl e \<Rightarrow> (Inl e, st)
           | Inr st' \<Rightarrow> (Inr g, st')))"

subsection \<open>The page script: state, loading and capture\<close>

text \<open>
  The module state of the page script that uses the viewer: the thumbnail variables, the
  viewer (\<open>None\<close> before \<open>init\<close>), the loading indicator (\<open>None\<close> when the page has no
  such element, otherwise whether it is shown), the messages of \<open>alert\<close>, the messages of
  \<open>console.error\<close>, and the URL of the current model.
\<close>

record main = thumb +
  viewer :: "viewer option"
  loadingIndicator :: "bool option"
  alerts :: "string list"
  console_errors :: "string list"
  currentModelUrl :: string

definition hideLoadingIndicator :: "main \<Rightarrow> main" where
  "hideLoadingIndicator s = s\<lparr>loadingIndicator := map_option (\<lambda>_. False) (loadingIndicator s)\<rparr>"

definition showLoadingIndicator :: "main \<Rightarrow> main" where
  "showLoadingIndicator s = s\<lparr>loadingIndicator := map_option (\<lambda>_. True) (loadingIndicator s)\<rparr>"

text \<open>
  \<open>loadModel\<close> with the settled promise of \<open>viewer.load(modelUrl, '', new Map())\<close>: the
  asset map is empty, so no object URL is created. On success the indicator is hidden, the
  display updated and live updating switched on; on failure, and when the success handler
  raises, the error goes to \<open>console.error\<close> and the indicator is hidden.
\<close>

definition loadModel :: "string \<Rightarrow> outcome \<Rightarrow> main \<Rightarrow> error + main" where
  "loadModel modelUrl out s =
     (let s1 = clearThumbnailPreview (showLoadingIndicator (s\<lparr>currentModelUrl := modelUrl\<rparr>))
      in case viewer s1 of
           None \<Rightarrow> Inl TypeError
         | Some v \<Rightarrow>
             (case load out [] (v\<lparr>state_grid := True\<rparr>, \<lparr>created = 0, objectURLs = (Map.empty :: nat \<rightharpoonup> unit)\<rparr>) of
                (Inr g, v', br) \<Rightarrow>
                  (case updateDisplay v' of
                     Inr v'' \<Rightarrow>
                       Inr ((hideLoadingIndicator s1)
                             \<lparr>viewer := Some v'', isLiveUpdating := True,
                              hasUserInteracted := True\<rparr>)
                   | Inl e \<Rightarrow>
                       Inr (hideLoadingIndicator
                              (s1\<lparr>viewer := Some v',
                                  console_errors := console_errors s1 @ [''Error loading model:'']\<rparr>)))
              | (Inl e, v', br) \<Rightarrow>
                  Inr (hideLoadingIndicator
                         (s1\<lparr>viewer := Some v',
                             console_errors := console_errors s1 @ [''Error loading model:'']\<rparr>))))"

text \<open>
  \<open>handleFileUpload\<close> from the point where the main file has been found among the
  uploaded files: the model is loaded from it, and on failure the error goes to
  \<open>console.error\<close> and to an \<open>alert\<close>, and the indicator is hidden.
\<close>

definition handleFileUpload :: "string \<Rightarrow> outcome \<Rightarrow> nat list \<Rightarrow> 'b browser \<Rightarrow> main \<Rightarrow> error + main" where
  "handleFileUpload fileURL out blobURLs br s =
     (case viewer s of
        None \<Rightarrow> Inl TypeError
      | Some v \<Rightarrow>
          (case load out blobURLs (v, br) of
             (Inr g, v', br') \<Rightarrow>
               Inr ((clearThumbnailPreview (hideLoadingIndicator s))
                     \<lparr>viewer := Some v', currentModelUrl := fileURL, isLiveUpdating := True,
                      hasUserInteracted := True\<rparr>)
           | (Inl e, v', br') \<Rightarrow>
               Inr (hideLoadingIndicator
                      (s\<lparr>viewer := Some v',
                         console_errors := console_errors s @ [''Error loading uploaded model:''],
                         alerts := alerts s @ [''Error loading model: '']\<rparr>))))"

text \<open>The capture of the page script: \<open>updateThumbnailFromViewport\<close> on the viewer.\<close>

definition viewer_render :: "viewer \<Rightarrow> frame" where
  "viewer_render v = \<lparr>f_background = map_option (\<lambda>b. backgroundColor v) (scene_background v),
                      f_grid = (viewer_gridHelper v = Some True),
                      f_clearColor = renderer_clearColor v\<rparr>"

definition viewer_capture :: "viewer \<Rightarrow> viewer \<times> frame" where
  "viewer_capture v =
     (let originalBackground = scene_background v;
          v1 = v\<lparr>scene_background := None\<rparr>;
          gridWasVisible = state_grid v1;
          v2 = (if viewer_gridHelper v1 \<noteq> None then v1\<lparr>viewer_gridHelper := Some False\<rparr> else v1);
          v3 = v2\<lparr>renderer_clearColor := (0, 0)\<rparr>;
          imageData = viewer_render v3;
          v4 = v3\<lparr>viewer_rendered := viewer_rendered v3 @ [imageData]\<rparr>;
          v5 = v4\<lparr>scene_background := originalBackground,
                  renderer_clearColor := (backgroundColor v4, 1)\<rparr>;
          v6 = (if gridWasVisible \<and> viewer_gridHelper v5 \<noteq> None
                then v5\<lparr>viewer_gridHelper := Some True\<rparr> else v5)
      in (v6, imageData))"

definition updateThumbnailFromViewport_main :: "int \<Rightarrow> main \<Rightarrow> main" where
  "updateThumbnailFromViewport_main now s =
     (case viewer s of
        None \<Rightarrow> s
      | Some v \<Rightarrow>
          if \<not> isLiveUpdating s \<or> thumbnailCanvas s = None \<or> thumbnailCtx s = None then s
          else if now - lastThumbnailUpdate s < THUMBNAIL_UPDATE_INTERVAL then s
          else let (v', imageData) = viewer_capture v
               in s\<lparr>lastThumbnailUpdate := now,
                    viewer := Some v',
                    newSnapshotData := Some imageData,
                    thumbnailImage := Some \<lparr>src = imageData, img_width = Num 0, img_height = Num 0\<rparr>\<rparr>)"

text \<open>
  The page after \<open>init\<close> and \<open>initThumbnailCanvas\<close> with the canvas element \<open>c\<close>, before
  any model is loaded.
\<close>

definition main_startup :: "canvas \<Rightarrow> main" where
  "main_startup c =
     \<lparr>thumbnailCanvas = Some (drawOn (FillRect ''#121212'' (Num 1)) c),
      thumbnailCtx = Some \<lparr>fillStyle = ''#121212'', globalAlpha = Num 1\<rparr>,
      thumbnailImage = None,
      thumbnailOffset = \<lparr>ptx = Num 0, pty = Num 0\<rparr>,
      thumbnailDragging = False,
      thumbnailDragStart = \<lparr>ptx = Num 0, pty = Num 0\<rparr>,
      thumbnailScale = Num 1,
      guidesImage = Some False,
      showThumbnailGuides = True,
      isLiveUpdating = True,
      lastThumbnailUpdate = 0,
      hasUserInteracted = True,
      newSnapshotData = None,
      viewer = Some new_Viewer,
      loadingIndicator = Some True,
      alerts = [],
      console_errors = [],
      currentModelUrl = ''assets/Truck.gltf''\<rparr>"

text \<open>
  The grid button of the page script: the grid option is toggled and the display updated,
  which raises when the viewer has no content; the guides of the composite follow the
  option. \<open>active\<close> says whether the canvas element has the class \<open>active\<close>.
\<close>

definition toggleGrid_main :: "bool \<Rightarrow> main \<Rightarrow> error + main" where
  "toggleGrid_main active s =
     (case viewer s of
        None \<Rightarrow> Inl TypeError
      | Some v \<Rightarrow>
          (case updateDisplay (v\<lparr>state_grid := \<not> state_grid v\<rparr>) of
             Inl e \<Rightarrow> Inl e
           | Inr v' \<Rightarrow>
               let s1 = s\<lparr>viewer := Some v', showThumbnailGuides := state_grid v'\<rparr>
               in Inr (if thumbnailCanvas s1 \<noteq> None \<and> active \<and> thumbnailImage s1 \<noteq> None
                       then renderThumbnail None True s1 else s1)))"

text \<open>The colour control of the display options: the viewer's background colour is set.\<close>

definition changeBackground :: "int \<Rightarrow> main \<Rightarrow> main" where
  "changeBackground bgColor s = s\<lparr>viewer := map_option (updateBackground bgColor) (viewer s)\<rparr>"

subsection \<open>Runs of \<open>app.js\<close>\<close>

text \<open>
  The events of the page that reach the state modelled here, and the state after a list
  of them. A handler that raises leaves the state as it was when it raised: the pointer-down
  handler has set \<open>thumbnailDragging\<close> by then, the pointer-move handler has changed
  nothing.
\<close>

datatype event =
    Capture int
  | GuidesLoaded
  | ImageLoaded
  | ToggleGrid bool
  | MouseDown mouse_event
  | MouseMove mouse_event
  | MouseUp
  | Wheel jsnum
  | UseSnapshot
  | ClearPreview

fun step :: "event \<Rightarrow> app \<Rightarrow> app" where
  "step (Capture now) s = updateThumbnailFromViewport now s"
| "step GuidesLoaded s = guidesImage_onload s"
| "step ImageLoaded s = thumbnailImage_onload s"
| "step (ToggleGrid active) s = toggleGrid active s"
| "step (MouseDown ev) s =
     (case onThumbnailMouseDown ev s of Inl e \<Rightarrow> s\<lparr>thumbnailDragging := True\<rparr> | Inr s' \<Rightarrow> s')"
| "step (MouseMove ev) s = (case onThumbnailMouseMove ev s of Inl e \<Rightarrow> s | Inr s' \<Rightarrow> s')"
| "step MouseUp s = onThumbnailMouseUp s"
| "step (Wheel deltaY) s = onThumbnailWheel deltaY s"
| "step UseSnapshot s = fst (useSnapshot s)"
| "step ClearPreview s = clearThumbnailPreview s"

fun run :: "event list \<Rightarrow> app \<Rightarrow> app" where
  "run [] s = s"
| "run (e # es) s = run es (step e s)"

text \<open>Whether a surface has the guides layer, and whether it has the background fill.\<close>

fun is_guides :: "draw \<Rightarrow> bool" where
  "is_guides (DrawGuides a) = True"
| "is_guides _ = False"

fun is_fill :: "draw \<Rightarrow> bool" where
  "is_fill (FillRect c a) = True"
| "is_fill _ = False"

definition shows_guides :: "draw list \<Rightarrow> bool" where
  "shows_guides ds = list_ex is_guides ds"

definition shows_background :: "draw list \<Rightarrow> bool" where
  "shows_background ds = list_ex is_fill ds"

text \<open>Two pointer positions on the page.\<close>

definition pointA :: mouse_event where
  "pointA = \<lparr>clientX = Num 110, clientY = Num 70\<rparr>"

definition pointB :: mouse_event where
  "pointB = \<lparr>clientX = Num 200, clientY = Num 30\<rparr>"

text \<open>
  The snapshot image and the canvas of the state \<open>app1\<close>, and a state with a snapshot
  of 100 by 100 pixels, the offset \<open>(10, -5)\<close> and the scale 2.
\<close>

definition image1 :: image where
  "image1 = \<lparr>src = \<lparr>f_background = None, f_grid = False, f_clearColor = (0, 0)\<rparr>,
              img_width = Num 1200, img_height = Num 1200\<rparr>"

definition canvas1 :: canvas where
  "canvas1 = canvas0\<lparr>surface := [FillRect ''#121212'' (Num 1), DrawGuides (double (3 / 10)),
                DrawImage image1 (Num 0) (Num 0) (Num 600) (Num 600) (Num 1)]\<rparr>"

definition app3 :: app where
  "app3 = app1\<lparr>thumbnailImage := Some (image1\<lparr>img_width := Num 100, img_height := Num 100\<rparr>),
               thumbnailOffset := \<lparr>ptx = Num 10, pty = Num (- 5)\<rparr>,
               thumbnailScale := Num 2\<rparr>"

text \<open>A parsed asset with a scene, and one without any.\<close>

definition scene_gltf :: gltf where
  "scene_gltf = \<lparr>gltf_scene = Some example_scene, gltf_scenes = [example_scene]\<rparr>"

definition no_scene :: gltf where
  "no_scene = \<lparr>gltf_scene = None, gltf_scenes = []\<rparr>"

text \<open>
  The page of the script on the viewer once the model has been loaded, with the grid option
  on (the grid helper is in the scene); the same page after a click on the grid button
  (the grid option is off and there is no grid helper); and the first page after a capture
  and a change of the background colour to \<open>0xffffff\<close> (16777215).
\<close>

definition main_grid_on :: main where
  "main_grid_on =
     (case loadModel ''assets/Truck.gltf'' (Parsed scene_gltf) (main_startup canvas0) of
        Inr s \<Rightarrow> s
      | Inl e \<Rightarrow> main_startup canvas0)"

definition main_grid_off :: main where
  "main_grid_off = (case toggleGrid_main False main_grid_on of Inr s \<Rightarrow> s | Inl e \<Rightarrow> main_grid_on)"

definition main_recoloured :: main where
  "main_recoloured = changeBackground 16777215 (updateThumbnailFromViewport_main 1000 main_grid_on)"

text \<open>
  A pointer position at the corner of the canvas and one a twentieth of a pixel to its
  right, and the state of \<open>app.js\<close> after a drag from the first to the second.
\<close>

definition pointO :: mouse_event where
  "pointO = \<lparr>clientX = Num 10, clientY = Num 20\<rparr>"

definition pointC :: mouse_event where
  "pointC = \<lparr>clientX = double (201 / 20), clientY = Num 20\<rparr>"

definition app_dragged :: app where
  "app_dragged = run [MouseDown pointO, MouseMove pointC, MouseUp] (startup canvas0)"

section \<open>Properties of the number model\<close>

lemma normal_eq [simp]: "normal r = r"
  by (auto simp: normal_def Fract_of_int_quotient dest!: quotient_of_div split: prod.splits)

lemma pow2_eq: "0 \<le> k \<Longrightarrow> pow2 k = 2 ^ nat k"
proof (induction k rule: pow2.induct)
  case (1 k)
  show ?case
  proof (cases "k \<le> 0")
    case True
    then have "k = 0" using "1.prems" by simp
    then show ?thesis by (simp add: pow2.simps [of 0])
  next
    case False
    define h where "h = k div 2"
    have h: "0 \<le> h" using False by (simp add: h_def)
    show ?thesis
    proof (cases "even k")
      case True
      have k: "nat k = nat h + nat h" using True False h by (auto simp: h_def elim!: evenE)
      have "pow2 h = 2 ^ nat h" using "1.IH"(1) [OF False True] h by (simp add: h_def)
      then show ?thesis using False True
        by (simp add: pow2.simps [of k] h_def [symmetric] square_def k power_add)
    next
      case odd: False
      have k: "nat k = Suc (nat h + nat h)" using odd False h by (auto simp: h_def elim!: oddE)
      have "pow2 h = 2 ^ nat h" using "1.IH"(2) [OF False odd] h by (simp add: h_def)
      then show ?thesis using False odd
        by (simp add: pow2.simps [of k] h_def [symmetric] square_def k power_add)
    qed
  qed
qed

lemma two_power_eq: "two_power q = 2 powi q"
  by (simp add: two_power_def pow2_eq power_int_def power_divide inverse_eq_divide
      Fract_of_int_quotient)

lemma two_power_pos [simp]: "0 < two_power q"
  by (simp add: two_power_eq)

lemma two_power_nonneg [simp]: "0 \<le> two_power q"
  by (simp add: two_power_eq)

lemma two_power_neq0 [simp]: "two_power q \<noteq> 0"
  by (simp add: two_power_eq)

lemma two_power_add: "two_power (a + b) = two_power a * two_power b"
  by (simp add: two_power_eq power_int_add)

lemma two_power_mono: "a \<le> b \<Longrightarrow> two_power a \<le> two_power b"
  by (simp add: two_power_eq power_int_increasing)

lemma two_power_less: "a < b \<Longrightarrow> two_power a < two_power b"
  by (simp add: two_power_eq power_int_strict_increasing)

lemma two_power_nat: "0 \<le> k \<Longrightarrow> two_power k = 2 ^ nat k"
  by (simp add: two_power_def pow2_eq Fract_of_int_quotient)

lemma ilog_up_bounds:
  "1 \<le> x \<Longrightarrow> 0 \<le> ilog_up x \<and> two_power (ilog_up x) \<le> x \<and> x < two_power (ilog_up x + 1)"
proof (induction x rule: ilog_up.induct)
  case (1 x)
  show ?case
  proof (cases "x < 2")
    case True
    then show ?thesis using "1.prems" by (simp add: ilog_up.simps [of x] two_power_eq)
  next
    case False
    then have h: "1 \<le> normal (x / 2)" by simp
    from "1.IH" [OF False h]
    have ih: "0 \<le> ilog_up (x / 2)" "two_power (ilog_up (x / 2)) \<le> x / 2"
        "x / 2 < two_power (ilog_up (x / 2) + 1)" by simp_all
    have e: "ilog_up x = ilog_up (x / 2) + 1" using False by (simp add: ilog_up.simps [of x])
    have p: "two_power (k + 1) = 2 * two_power k" for k
      by (simp add: two_power_eq power_int_add_1')
    show ?thesis using ih unfolding e p by simp
  qed
qed

lemma ilog2_bounds:
  assumes "0 < x"
  shows "two_power (ilog2 x) \<le> x \<and> x < two_power (ilog2 x + 1)"
proof (cases "1 \<le> x")
  case True
  then show ?thesis using ilog_up_bounds [of x] by (simp add: ilog2_def)
next
  case False
  define k where "k = ilog_up (1 / x)"
  have "1 \<le> 1 / x" using assms False by simp
  from ilog_up_bounds [OF this]
  have k: "two_power k \<le> 1 / x" "1 / x < two_power (k + 1)" by (simp_all add: k_def)
  have "- k - 1 = - (k + 1)" by simp
  then have m: "two_power (- k) = 1 / two_power k" "two_power (- k - 1) = 1 / two_power (k + 1)"
    using power_int_minus [of "2::rat" k] power_int_minus [of "2::rat" "k + 1"]
    by (simp_all add: two_power_eq inverse_eq_divide)
  have a: "x \<le> two_power (- k)"
    using k(1) assms unfolding m by (simp add: field_simps)
  have b: "two_power (- k - 1) < x"
    using k(2) assms unfolding m by (simp add: field_simps)
  show ?thesis
  proof (cases "two_power (- k) \<le> x")
    case True
    then have "ilog2 x = - k" using False by (simp add: ilog2_def below_def k_def)
    moreover have "x < two_power (- k + 1)" using a two_power_less [of "- k" "- k + 1"] by simp
    ultimately show ?thesis using True by simp
  next
    case F: False
    then have "ilog2 x = - k - 1" using False by (simp add: ilog2_def below_def k_def)
    then show ?thesis using b F by simp
  qed
qed

lemma ilog2_unique:
  assumes "0 < x" "two_power k \<le> x" "x < two_power (k + 1)"
  shows "ilog2 x = k"
proof -
  from ilog2_bounds [OF assms(1)]
  have b: "two_power (ilog2 x) \<le> x" "x < two_power (ilog2 x + 1)" by simp_all
  have "\<not> k + 1 \<le> ilog2 x"
    using two_power_mono [of "k + 1" "ilog2 x"] b(1) assms(3) by auto
  moreover have "\<not> ilog2 x + 1 \<le> k"
    using two_power_mono [of "ilog2 x + 1" k] b(2) assms(2) by auto
  ultimately show ?thesis by simp
qed

lemma ilog2_mono:
  assumes "0 < x" "x \<le> y"
  shows "ilog2 x \<le> ilog2 y"
proof (rule ccontr)
  assume "\<not> ilog2 x \<le> ilog2 y"
  then have "ilog2 y + 1 \<le> ilog2 x" by simp
  from two_power_mono [OF this] ilog2_bounds [of x] ilog2_bounds [of y] assms
  show False by auto
qed

lemma expo_mono: "0 < x \<Longrightarrow> x \<le> y \<Longrightarrow> expo x \<le> expo y"
  using ilog2_mono [of x y] by (simp add: expo_def)

lemma rhe_upper: "of_int (rhe y) \<le> y + 1 / 2"
proof -
  have "of_int \<lfloor>y\<rfloor> \<le> y" by simp
  then show ?thesis unfolding rhe_def nearest_def by (auto; linarith)
qed

lemma rhe_lower: "y - 1 / 2 \<le> of_int (rhe y)"
proof -
  have "y < of_int \<lfloor>y\<rfloor> + 1" by linarith
  then show ?thesis unfolding rhe_def nearest_def by (auto; linarith)
qed

lemma rhe_of_int [simp]: "rhe (of_int n) = n"
  by (simp add: rhe_def nearest_def)

lemma rhe_mono:
  assumes "a \<le> b"
  shows "rhe a \<le> rhe b"
proof (rule ccontr)
  assume "\<not> rhe a \<le> rhe b"
  then have "rhe b + 1 \<le> rhe a" by simp
  then have l: "(of_int (rhe b) :: rat) + 1 \<le> of_int (rhe a)"
    by (metis of_int_1 of_int_add of_int_le_iff)
  have "a = b" using l rhe_upper [of a] rhe_lower [of b] assms by linarith
  with \<open>\<not> rhe a \<le> rhe b\<close> show False by simp
qed


lemma two_power_53: "two_power (q + 53) = two_power q * 9007199254740992"
  by (simp add: two_power_add two_power_nat)

lemma two_power_52: "two_power (q + 52) = two_power q * 4503599627370496"
  by (simp add: two_power_add two_power_nat)

lemma mant_le:
  assumes "0 < x"
  shows "rhe (x / two_power (expo x)) \<le> 9007199254740992"
proof -
  have "ilog2 x + 1 \<le> expo x + 53" by (simp add: expo_def)
  from two_power_mono [OF this] ilog2_bounds [OF assms]
  have "x < two_power (expo x) * 9007199254740992" by (simp add: two_power_53)
  then have "x / two_power (expo x) \<le> of_int 9007199254740992"
    by (simp add: field_simps)
  from rhe_mono [OF this] show ?thesis by (simp only: rhe_of_int)
qed

lemma mant_ge:
  assumes "0 < x" and "- 1074 < expo x"
  shows "4503599627370496 \<le> rhe (x / two_power (expo x))"
proof -
  have "ilog2 x = expo x + 52" using assms(2) by (simp add: expo_def max_def split: if_splits)
  with ilog2_bounds [OF assms(1)]
  have "two_power (expo x) * 4503599627370496 \<le> x" by (simp add: two_power_52)
  then have "of_int 4503599627370496 \<le> x / two_power (expo x)"
    by (simp add: field_simps)
  from rhe_mono [OF this] show ?thesis by (simp only: rhe_of_int)
qed

lemma mant_nonneg:
  assumes "0 < x"
  shows "0 \<le> rhe (x / two_power (expo x))"
proof -
  have "of_int 0 \<le> x / two_power (expo x)" using assms by simp
  from rhe_mono [OF this] show ?thesis by (simp only: rhe_of_int)
qed

lemma finite_or_inf_eq:
  assumes "m \<le> 9007199254740992" and "- 1074 < q \<longrightarrow> 4503599627370496 \<le> m"
  shows "finite_or_inf q m
         = (if two_power 1024 \<le> of_int m * two_power q then PInf else Num (of_int m * two_power q))"
proof -
  have m: "(of_int m :: rat) \<le> 9007199254740992" using assms(1) by linarith
  consider "971 < q" | "q = 971" | "q < 971" by linarith
  then show ?thesis
  proof cases
    case 1
    then have "(4503599627370496 :: rat) \<le> of_int m" using assms(2) by auto
    moreover have "two_power 972 \<le> two_power q" using 1 by (intro two_power_mono) simp
    ultimately have "4503599627370496 * two_power 972 \<le> of_int m * two_power q"
      by (intro mult_mono) simp_all
    moreover have "two_power 1024 = 4503599627370496 * two_power 972"
      using two_power_52 [of 972] by simp
    ultimately show ?thesis using 1 by (simp add: finite_or_inf_def)
  next
    case 2
    have t: "two_power 1024 = 9007199254740992 * two_power 971"
      using two_power_53 [of 971] by simp
    have "((9007199254740992 :: rat) \<le> of_int m) = (9007199254740992 \<le> m)"
      using of_int_le_iff [of 9007199254740992 m, where 'a = rat] by simp
    then have "(two_power 1024 \<le> of_int m * two_power 971) = (9007199254740992 \<le> m)"
      unfolding t by simp
    then show ?thesis using 2 by (simp add: finite_or_inf_def)
  next
    case 3
    then have "two_power q \<le> two_power 970" by (intro two_power_mono) simp
    with m have "of_int m * two_power q \<le> 9007199254740992 * two_power 970"
      by (intro mult_mono) simp_all
    moreover have "9007199254740992 * two_power 970 < two_power 1024"
      using two_power_53 [of 970] two_power_less [of 1023 1024] by simp
    ultimately show ?thesis using 3 by (simp add: finite_or_inf_def)
  qed
qed

lemma double_pos:
  assumes "0 < x"
  shows "double x = (if two_power 1024 \<le> rnd x then PInf else Num (rnd x))"
  using assms finite_or_inf_eq [OF mant_le [OF assms]] mant_ge [OF assms]
  by (simp add: double_def round_double_def round_pos_def rnd_def)

lemma double_neg: "double (- x) = jneg (double x)"
proof -
  have "jneg (jneg a) = a" for a by (cases a) simp_all
  then show ?thesis by (simp add: double_def round_double_def)
qed

lemma double_0 [simp]: "double 0 = Num 0"
  by (simp add: double_def round_double_def)

lemma rnd_nonneg: "0 < x \<Longrightarrow> 0 \<le> rnd x"
  using mant_nonneg [of x] by (simp add: rnd_def)

lemma rnd_mono:
  assumes "0 < x" "x \<le> y"
  shows "rnd x \<le> rnd y"
proof (cases "expo x = expo y")
  case True
  have "x / two_power (expo y) \<le> y / two_power (expo y)"
    using assms(2) by (simp add: divide_right_mono)
  from rhe_mono [OF this] show ?thesis
    by (simp add: rnd_def True)
next
  case False
  have y: "0 < y" using assms by simp
  from False expo_mono [OF assms] have lt: "expo x + 1 \<le> expo y" by simp
  have "- 1074 \<le> expo x" by (simp add: expo_def)
  with lt have "- 1074 < expo y" by simp
  from mant_ge [OF y this]
  have "(4503599627370496 :: rat) \<le> of_int (rhe (y / two_power (expo y)))" by linarith
  then have "4503599627370496 * two_power (expo y) \<le> rnd y"
    by (simp add: rnd_def)
  moreover have "rnd x \<le> 9007199254740992 * two_power (expo x)"
  proof -
    have "(of_int (rhe (x / two_power (expo x))) :: rat) \<le> 9007199254740992"
      using mant_le [OF assms(1)] by linarith
    then show ?thesis by (simp add: rnd_def)
  qed
  moreover have "9007199254740992 * two_power (expo x) \<le> 4503599627370496 * two_power (expo y)"
    using two_power_mono [OF lt] two_power_53 [of "expo x"] two_power_52 [of "expo y"]
      two_power_mono [of "expo x + 53" "expo y + 52"] lt by (simp add: mult.commute)
  ultimately show ?thesis by linarith
qed


lemma double_not_NaN [simp]: "double x \<noteq> NaN"
proof -
  have "finite_or_inf q m \<noteq> NaN" for q m by (simp add: finite_or_inf_def)
  moreover have "jneg a \<noteq> NaN" if "a \<noteq> NaN" for a using that by (cases a) simp_all
  ultimately show ?thesis by (simp add: double_def round_double_def round_pos_def)
qed

lemma jle_refl: "a \<noteq> NaN \<Longrightarrow> jle a a"
  by (cases a) (simp_all add: jle_def)

lemma jle_trans: "jle a b \<Longrightarrow> jle b c \<Longrightarrow> jle a c"
  by (cases a; cases b; cases c) (simp_all add: jle_def)

lemma jle_jneg: "jle a b \<Longrightarrow> jle (jneg b) (jneg a)"
  by (cases a; cases b) (simp_all add: jle_def)

lemma jle_Num [simp]: "jle (Num a) (Num b) = (a \<le> b)"
  by (auto simp: jle_def)

lemma double_pos_mono:
  assumes "0 < x" "x \<le> y"
  shows "jle (double x) (double y)"
proof -
  have y: "0 < y" using assms by simp
  show ?thesis
    using rnd_mono [OF assms]
    by (simp add: double_pos [OF assms(1)] double_pos [OF y] jle_def)
qed

lemma double_pos_ge: "0 < x \<Longrightarrow> jle (Num 0) (double x)"
  using rnd_nonneg [of x] by (simp add: double_pos jle_def)

lemma double_mono:
  assumes "x \<le> y"
  shows "jle (double x) (double y)"
proof -
  consider "0 < x" | "x = 0" "y = 0" | "x = 0" "0 < y" | "x < 0" "y < 0" | "x < 0" "y = 0" | "x < 0" "0 < y"
    using assms by linarith
  then show ?thesis
  proof cases
    case 1
    then show ?thesis using double_pos_mono assms by simp
  next
    case 2
    then show ?thesis by simp
  next
    case 3
    then show ?thesis using double_pos_ge by simp
  next
    case 4
    then have "jle (double (- y)) (double (- x))" using assms by (intro double_pos_mono) simp_all
    from jle_jneg [OF this] show ?thesis by (simp add: double_neg [symmetric])
  next
    case 5
    then have "jle (Num 0) (double (- x))" by (intro double_pos_ge) simp
    from jle_jneg [OF this] show ?thesis using 5 by (simp add: double_neg [symmetric])
  next
    case 6
    then have "jle (Num 0) (double (- x))" by (intro double_pos_ge) simp
    from jle_jneg [OF this] have "jle (double x) (Num 0)" by (simp add: double_neg [symmetric])
    moreover have "jle (Num 0) (double y)" using 6 by (intro double_pos_ge)
    ultimately show ?thesis by (rule jle_trans)
  qed
qed

lemma rnd_exact:
  assumes x: "x = of_int m * two_power q" and pos: "0 < x"
      and m: "m \<le> 9007199254740992" and q: "- 1074 \<le> q"
  shows "rnd x = x"
proof -
  have "\<exists>n. x / two_power (expo x) = of_int n"
  proof (cases "expo x \<le> q")
    case True
    define d where "d = q - expo x"
    have d: "0 \<le> d" "q = expo x + d" using True by (simp_all add: d_def)
    have "two_power q = two_power (expo x) * two_power d"
      using two_power_add [of "expo x" d] d(2) by simp
    then have "x = of_int m * (two_power (expo x) * two_power d)"
      using x by simp
    then have "x / two_power (expo x)
        = of_int m * (two_power (expo x) * two_power d) / two_power (expo x)"
      by (rule arg_cong [where f = "\<lambda>v. v / two_power (expo x)"])
    also have "\<dots> = of_int m * two_power d"
      by simp
    also have "\<dots> = of_int (m * 2 ^ nat d)"
      using d(1) by (simp add: two_power_nat)
    finally show ?thesis by blast
  next
    case False
    then have e: "expo x = ilog2 x - 52" using q by (simp add: expo_def max_def split: if_splits)
    have "two_power (ilog2 x) \<le> x" using ilog2_bounds [OF pos] by simp
    also have "x \<le> 9007199254740992 * two_power q"
    proof -
      have "(of_int m :: rat) \<le> 9007199254740992" using m by linarith
      then have "of_int m * two_power q \<le> 9007199254740992 * two_power q"
        by (intro mult_right_mono) simp_all
      then show ?thesis using x by simp
    qed
    also have "\<dots> = two_power (q + 53)" by (simp add: two_power_53)
    finally have "\<not> q + 53 < ilog2 x"
      using two_power_less [of "q + 53" "ilog2 x"] by auto
    with False e have i: "ilog2 x = q + 53" by simp
    then have "two_power (q + 53) \<le> of_int m * two_power q"
      using ilog2_bounds [OF pos] x by simp
    then have "(9007199254740992 :: rat) \<le> of_int m"
      by (simp add: two_power_53 mult.commute)
    then have "m = 9007199254740992" using m by linarith
    then have "x = two_power (q + 53)"
      using x by (simp add: two_power_53 mult.commute)
    moreover have "expo x = q + 1" using e i by simp
    ultimately have "x / two_power (expo x) = two_power (q + 53) / two_power (q + 1)"
      by simp
    also have "\<dots> = two_power 52"
    proof -
      have "q + 53 = q + 1 + 52" by simp
      then have "two_power (q + 53) = two_power (q + 1) * two_power 52"
        by (simp only: two_power_add)
      then show ?thesis by simp
    qed
    also have "\<dots> = of_int (2 ^ 52)" by (simp add: two_power_nat)
    finally show ?thesis by blast
  qed
  then obtain n where n: "x / two_power (expo x) = of_int n" ..
  have "x = x / two_power (expo x) * two_power (expo x)" by simp
  then have "x = of_int n * two_power (expo x)" unfolding n .
  moreover have "rnd x = of_int n * two_power (expo x)" by (simp add: rnd_def n)
  ultimately show ?thesis by simp
qed

lemma double_exactI:
  assumes x: "x = of_int m * two_power q"
      and m: "\<bar>m\<bar> \<le> 9007199254740992" and q: "- 1074 \<le> q"
      and fin: "\<bar>x\<bar> < two_power 1024"
  shows "double x = Num x"
proof -
  consider "x = 0" | "0 < x" | "x < 0" by linarith
  then show ?thesis
  proof cases
    case 1
    then show ?thesis by simp
  next
    case 2
    have "rnd x = x" using rnd_exact [OF x 2 _ q] m by simp
    then show ?thesis using fin 2 by (simp add: double_pos)
  next
    case 3
    have "- x = of_int (- m) * two_power q" by (simp add: x)
    from rnd_exact [OF this _ _ q] have "rnd (- x) = - x" using 3 m by simp
    then have "double (- x) = Num (- x)" using fin 3 by (simp add: double_pos)
    then show ?thesis by (simp add: double_neg) (cases "double x", simp_all)
  qed
qed

lemma double_idem:
  assumes "double x = Num y"
  shows "double y = Num y"
proof -
  have pos: "double z = Num w \<Longrightarrow> double w = Num w" if z: "0 < z" for z w
  proof -
    assume a: "double z = Num w"
    define m where "m = rhe (z / two_power (expo z))"
    from a have w: "w = rnd z" and fin: "\<not> two_power 1024 \<le> rnd z"
      by (simp_all add: double_pos [OF z] split: if_splits)
    have w': "w = of_int m * two_power (expo z)" by (simp add: w rnd_def m_def)
    have "0 \<le> m" "m \<le> 9007199254740992"
      using mant_nonneg [OF z] mant_le [OF z] by (simp_all add: m_def)
    then have m: "\<bar>m\<bar> \<le> 9007199254740992" by simp
    have q: "- 1074 \<le> expo z" by (simp add: expo_def)
    have "0 \<le> w" using rnd_nonneg [OF z] w by simp
    then have "\<bar>w\<bar> < two_power 1024" using fin w by simp
    from double_exactI [OF w' m q this] show ?thesis .
  qed
  consider "x = 0" | "0 < x" | "x < 0" by linarith
  then show ?thesis
  proof cases
    case 1
    then show ?thesis using assms by simp
  next
    case 2
    then show ?thesis using pos assms by blast
  next
    case 3
    have "double (- x) = Num (- y)" using assms by (simp add: double_neg)
    with pos [of "- x" "- y"] 3 have "double (- y) = Num (- y)" by simp
    then show ?thesis by (simp add: double_neg) (cases "double y", simp_all)
  qed
qed

lemma is_double_double: "double x = Num y \<Longrightarrow> is_double y"
  by (simp add: is_double_def double_idem)

lemma is_double_neg: "is_double (- x) = is_double x"
  by (cases "double x") (simp_all add: is_double_def double_neg)

lemma is_double_of_int:
  assumes "\<bar>n\<bar> \<le> 9007199254740992"
  shows "is_double (of_int n)"
proof -
  have t: "two_power 0 = 1" by (simp add: two_power_nat)
  have "\<bar>of_int n :: rat\<bar> \<le> 9007199254740992" using assms by linarith
  moreover have "(9007199254740992 :: rat) < two_power 1024"
    using two_power_less [of 53 1024] by (simp add: two_power_nat)
  ultimately have "\<bar>of_int n :: rat\<bar> < two_power 1024" by linarith
  from double_exactI [of "of_int n" n 0, OF _ assms _ this] show ?thesis
    by (simp add: t is_double_def)
qed

lemma double_1 [simp]: "double 1 = Num 1"
  using is_double_of_int [of 1] by (simp add: is_double_def)

lemma is_double_0 [simp]: "is_double 0"
  by (simp add: is_double_def)

lemma is_double_1 [simp]: "is_double 1"
  by (simp add: is_double_def)

lemma is_double_numeral [simp]:
  "numeral k \<le> (9007199254740992 :: int) \<Longrightarrow> is_double (numeral k)"
  using is_double_of_int [of "numeral k"] by simp

lemma representable_double [simp]: "representable (double x)"
  by (cases "double x") (simp_all add: is_double_double)

lemma representable_jadd [simp]: "representable (jadd a b)"
  by (cases a; cases b) simp_all

lemma representable_jmul [simp]: "representable (jmul a b)"
  by (cases a; cases b) simp_all

lemma representable_jdiv [simp]: "representable (jdiv a b)"
  by (cases a; cases b) simp_all

lemma representable_jneg [simp]: "representable (jneg a) = representable a"
  by (cases a) (simp_all add: is_double_neg)

lemma representable_jsub [simp]: "representable (jsub a b)"
  by (simp add: jsub_def)

lemma jadd_zero: "representable a \<Longrightarrow> jadd a (Num 0) = a"
  by (cases a) (simp_all add: is_double_def)

lemma jadd_zero_left: "representable a \<Longrightarrow> jadd (Num 0) a = a"
  by (cases a) (simp_all add: is_double_def)

lemma jmul_one: "representable a \<Longrightarrow> jmul a (Num 1) = a"
  by (cases a) (simp_all add: is_double_def)

lemma jmul_one_left: "representable a \<Longrightarrow> jmul (Num 1) a = a"
  by (cases a) (simp_all add: is_double_def)

lemma jsub_zero_left: "representable a \<Longrightarrow> jsub (Num 0) a = jneg a"
  by (cases a) (simp_all add: jsub_def is_double_def double_neg)

lemma jsub_Num: "jsub (Num a) (Num b) = double (a - b)"
  by (simp add: jsub_def)

lemma jmin_commute: "jmin a b = jmin b a"
  by (cases a; cases b) (auto simp: jmin_def)

lemma jmax_commute: "jmax a b = jmax b a"
  by (cases a; cases b) (auto simp: jmax_def)

lemma jmin_PInf_left [simp]: "jmin PInf a = a"
  by (cases a) (simp_all add: jmin_def)

lemma jmax_NInf_left [simp]: "jmax NInf a = a"
  by (cases a) (simp_all add: jmax_def)

lemma jle_min_max: "jle a b \<Longrightarrow> jmin a b = a \<and> jmax a b = b"
  by (cases a; cases b) (auto simp: jle_def jmin_def jmax_def)

lemma jle_between: "jle (Num l) a \<Longrightarrow> jle a (Num h) \<Longrightarrow> \<exists>t. a = Num t \<and> l \<le> t \<and> t \<le> h"
  by (cases a) (simp_all add: jle_def)

lemma jadd_right_mono:
  assumes "a \<le> b"
  shows "jmin (jadd (Num a) p) (jadd (Num b) p) = jadd (Num a) p
       \<and> jmax (jadd (Num a) p) (jadd (Num b) p) = jadd (Num b) p"
proof (cases p)
  case (Num c)
  have "jle (double (a + c)) (double (b + c))" using assms by (intro double_mono) simp
  from jle_min_max [OF this] show ?thesis by (simp add: Num)
qed (simp_all add: jmin_def jmax_def)

text \<open>
  The error of one rounding is at most the fraction \<open>2 ^ -53\<close> of the rounded number, or
  \<open>2 ^ -1075\<close>, half the spacing of the smallest doubles.
\<close>

lemma rnd_error:
  assumes "0 < x"
  shows "\<bar>rnd x - x\<bar> \<le> x / 9007199254740992 + two_power (- 1075)"
proof -
  define q where "q = expo x"
  define t where "t = x / two_power q"
  have "\<bar>of_int (rhe t) - t\<bar> \<le> 1 / 2"
    using rhe_upper [of t] rhe_lower [of t] by linarith
  then have "\<bar>of_int (rhe t) - t\<bar> * two_power q \<le> 1 / 2 * two_power q"
    by (intro mult_right_mono) simp_all
  moreover have "rnd x - x = (of_int (rhe t) - t) * two_power q"
    by (simp add: rnd_def q_def [symmetric] t_def [symmetric] algebra_simps) (simp add: t_def)
  ultimately have e: "\<bar>rnd x - x\<bar> \<le> two_power q / 2"
    by (simp add: abs_mult)
  show ?thesis
  proof (cases "- 1074 < q")
    case True
    then have "ilog2 x = q + 52" by (simp add: q_def expo_def max_def split: if_splits)
    with ilog2_bounds [OF assms] have "two_power q * 4503599627370496 \<le> x"
      by (simp add: two_power_52)
    then show ?thesis using e two_power_nonneg [of "- 1075"] by linarith
  next
    case False
    then have "q = - 1074" by (simp add: q_def expo_def)
    moreover have "two_power (- 1074) = 2 * two_power (- 1075)"
      using two_power_add [of 1 "- 1075"] by (simp add: two_power_nat)
    ultimately show ?thesis using e assms by simp
  qed
qed

lemma double_error:
  assumes "double x = Num y"
  shows "\<bar>y - x\<bar> \<le> \<bar>x\<bar> / 9007199254740992 + two_power (- 1075)"
proof -
  consider "x = 0" | "0 < x" | "x < 0" by linarith
  then show ?thesis
  proof cases
    case 1
    then show ?thesis using assms by simp
  next
    case 2
    then have "y = rnd x" using assms by (simp add: double_pos split: if_splits)
    then show ?thesis using rnd_error [OF 2] 2 by simp
  next
    case 3
    have "double (- x) = Num (- y)" using assms by (simp add: double_neg)
    then have "- y = rnd (- x)" using 3 by (simp add: double_pos split: if_splits)
    then show ?thesis using rnd_error [of "- x"] 3 by simp
  qed
qed

lemma double_error_le:
  assumes "double x = Num y" and "\<bar>x\<bar> \<le> B"
  shows "\<bar>y - x\<bar> \<le> B / 9007199254740992 + two_power (- 1075)"
proof -
  have "\<bar>x\<bar> / 9007199254740992 \<le> B / 9007199254740992"
    using assms(2) by (simp add: divide_right_mono)
  then have "\<bar>x\<bar> / 9007199254740992 + two_power (- 1075) \<le> B / 9007199254740992 + two_power (- 1075)"
    by simp
  with double_error [OF assms(1)] show ?thesis by (rule order_trans)
qed

lemma jadd_Num_cases:
  assumes "jadd a b = Num t"
  obtains x y where "a = Num x" "b = Num y" "double (x + y) = Num t"
  using assms by (cases a; cases b) simp_all

lemma jsub_Num_cases:
  assumes "jsub a b = Num t"
  obtains x y where "a = Num x" "b = Num y" "double (x - y) = Num t"
  using assms by (cases a; cases b) (simp_all add: jsub_def)

lemma jmul_half_cases:
  assumes "jmul a (Num (1 / 2)) = Num t"
  obtains x where "a = Num x" "double (x / 2) = Num t"
  using assms by (cases a) simp_all

text \<open>
  Subtracting from \<open>a\<close> the rounded difference \<open>a - v\<close> gives \<open>v\<close> up to two roundings.
\<close>

lemma jsub_back_error:
  assumes "jsub (Num a) (jsub (Num a) (Num v)) = Num r"
  shows "\<bar>r - v\<bar> \<le> (\<bar>a\<bar> + \<bar>v\<bar>) / 2251799813685248 + two_power (- 1073)"
proof -
  define eta where "eta = two_power (- 1075)"
  have eta: "0 \<le> eta" "two_power (- 1073) = 4 * eta"
    using two_power_add [of 2 "- 1075"] by (simp_all add: eta_def two_power_nat)
  from assms obtain d where d: "double (a - v) = Num d" and r: "double (a - d) = Num r"
    by (elim jsub_Num_cases) (auto simp: jsub_Num)
  define A where "A = \<bar>a\<bar> + \<bar>v\<bar>"
  define d1 where "d1 = \<bar>d - (a - v)\<bar>"
  define d2 where "d2 = \<bar>r - (a - d)\<bar>"
  have "\<bar>a - v\<bar> \<le> A" unfolding A_def by linarith
  from double_error_le [OF d this]
  have t1: "d1 \<le> A / 9007199254740992 + eta" by (simp add: d1_def eta_def)
  have "\<bar>a - d\<bar> \<le> A + d1" unfolding A_def d1_def by linarith
  from double_error_le [OF r this]
  have t2: "d2 \<le> (A + d1) / 9007199254740992 + eta" by (simp add: d2_def eta_def)
  have nn: "0 \<le> A" "0 \<le> d1" by (simp_all add: A_def d1_def)
  have "\<bar>r - v\<bar> \<le> d2 + d1" unfolding d1_def d2_def by linarith
  with t1 t2 eta(1) nn have "\<bar>r - v\<bar> \<le> A / 2251799813685248 + 4 * eta"
    unfolding add_divide_distrib by linarith
  then show ?thesis by (simp add: eta(2) A_def)
qed

text \<open>
  The centre of the interval from \<open>l - c\<close> to \<open>h - c\<close>, where \<open>c\<close> is the centre of the
  interval from \<open>l\<close> to \<open>h\<close>, is 0 up to the six roundings of the computation.
\<close>

lemma recentred_error:
  assumes "jmul (jadd (jsub (Num l) c) (jsub (Num h) c)) (Num (1 / 2)) = Num r"
      and "c = jmul (double (l + h)) (Num (1 / 2))"
  shows "\<bar>r\<bar> \<le> (\<bar>l\<bar> + \<bar>h\<bar>) / 2251799813685248 + two_power (- 1072)"
proof -
  define eta where "eta = two_power (- 1075)"
  have eta: "0 \<le> eta" "two_power (- 1072) = 8 * eta"
    using two_power_add [of 3 "- 1075"] by (simp_all add: eta_def two_power_nat)
  from assms(1) obtain t where t: "jadd (jsub (Num l) c) (jsub (Num h) c) = Num t"
      and r: "double (t / 2) = Num r"
    by (elim jmul_half_cases)
  from t obtain l' h' where l': "jsub (Num l) c = Num l'" and h': "jsub (Num h) c = Num h'"
      and t': "double (l' + h') = Num t"
    by (elim jadd_Num_cases)
  from l' obtain m where m: "c = Num m" and lm: "double (l - m) = Num l'"
    by (elim jsub_Num_cases) simp
  have hm: "double (h - m) = Num h'" using h' by (simp add: m jsub_Num)
  from m obtain s where s: "double (l + h) = Num s" and sm: "double (s / 2) = Num m"
    unfolding assms(2) by (elim jmul_half_cases)
  define A where "A = \<bar>l\<bar> + \<bar>h\<bar>"
  define d1 where "d1 = \<bar>s - (l + h)\<bar>"
  define d2 where "d2 = \<bar>m - s / 2\<bar>"
  define d3 where "d3 = \<bar>l' - (l - m)\<bar>"
  define d4 where "d4 = \<bar>h' - (h - m)\<bar>"
  define d5 where "d5 = \<bar>t - (l' + h')\<bar>"
  define d6 where "d6 = \<bar>r - t / 2\<bar>"
  have "\<bar>l + h\<bar> \<le> A" unfolding A_def by linarith
  from double_error_le [OF s this]
  have b1: "d1 \<le> A / 9007199254740992 + eta" by (simp add: d1_def eta_def)
  have "\<bar>s\<bar> \<le> A + d1" unfolding A_def d1_def by linarith
  then have s2: "\<bar>s / 2\<bar> \<le> (A + d1) / 2" by simp
  from double_error_le [OF sm this]
  have b2: "d2 \<le> (A + d1) / 2 / 9007199254740992 + eta" by (simp add: d2_def eta_def)
  have am: "\<bar>m\<bar> \<le> (A + d1) / 2 + d2" using s2 unfolding d2_def by linarith
  then have "\<bar>l - m\<bar> \<le> A + (A + d1) / 2 + d2" unfolding A_def by linarith
  from double_error_le [OF lm this]
  have b3: "d3 \<le> (A + (A + d1) / 2 + d2) / 9007199254740992 + eta" by (simp add: d3_def eta_def)
  from am have "\<bar>h - m\<bar> \<le> A + (A + d1) / 2 + d2" unfolding A_def by linarith
  from double_error_le [OF hm this]
  have b4: "d4 \<le> (A + (A + d1) / 2 + d2) / 9007199254740992 + eta" by (simp add: d4_def eta_def)
  have "l' + h' = (l' - (l - m)) + (h' - (h - m)) - (s - (l + h)) - 2 * (m - s / 2)"
    by simp
  then have p: "\<bar>l' + h'\<bar> \<le> d3 + d4 + d1 + 2 * d2"
    unfolding d1_def d2_def d3_def d4_def by linarith
  from double_error_le [OF t' this]
  have b5: "d5 \<le> (d3 + d4 + d1 + 2 * d2) / 9007199254740992 + eta" by (simp add: d5_def eta_def)
  have "\<bar>t\<bar> \<le> \<bar>l' + h'\<bar> + d5" unfolding d5_def by linarith
  with p have at: "\<bar>t / 2\<bar> \<le> (d3 + d4 + d1 + 2 * d2 + d5) / 2" by simp
  from double_error_le [OF r this]
  have b6: "d6 \<le> (d3 + d4 + d1 + 2 * d2 + d5) / 2 / 9007199254740992 + eta"
    by (simp add: d6_def eta_def)
  have ar: "\<bar>r\<bar> \<le> (d3 + d4 + d1 + 2 * d2 + d5) / 2 + d6"
    using at unfolding d6_def by linarith
  have nn: "0 \<le> A" "0 \<le> d1" "0 \<le> d2" "0 \<le> d3" "0 \<le> d4" "0 \<le> d5"
    by (simp_all add: A_def d1_def d2_def d3_def d4_def d5_def)
  from b1 b2 b3 b4 b5 b6 ar nn eta(1)
  have "\<bar>r\<bar> \<le> A / 2251799813685248 + 8 * eta"
    unfolding add_divide_distrib by linarith
  then show ?thesis by (simp add: eta(2) A_def)
qed

section \<open>Properties of framing\<close>

lemma setFromPoints_min_x: "vx (box_min (setFromPoints b ps)) = foldl jmin (vx (box_min b)) (map vx ps)"
  by (induction ps arbitrary: b) (simp_all add: expandByPoint_def vec_def)
lemma setFromPoints_min_y: "vy (box_min (setFromPoints b ps)) = foldl jmin (vy (box_min b)) (map vy ps)"
  by (induction ps arbitrary: b) (simp_all add: expandByPoint_def vec_def)
lemma setFromPoints_min_z: "vz (box_min (setFromPoints b ps)) = foldl jmin (vz (box_min b)) (map vz ps)"
  by (induction ps arbitrary: b) (simp_all add: expandByPoint_def vec_def)
lemma setFromPoints_max_x: "vx (box_max (setFromPoints b ps)) = foldl jmax (vx (box_max b)) (map vx ps)"
  by (induction ps arbitrary: b) (simp_all add: expandByPoint_def vec_def)
lemma setFromPoints_max_y: "vy (box_max (setFromPoints b ps)) = foldl jmax (vy (box_max b)) (map vy ps)"
  by (induction ps arbitrary: b) (simp_all add: expandByPoint_def vec_def)
lemma setFromPoints_max_z: "vz (box_max (setFromPoints b ps)) = foldl jmax (vz (box_max b)) (map vz ps)"
  by (induction ps arbitrary: b) (simp_all add: expandByPoint_def vec_def)

lemma foldl_min_in: "foldl min a us \<in> set (a # us)" for a :: rat
  by (induction us arbitrary: a) (auto simp: min_def)

lemma foldl_max_in: "foldl max a us \<in> set (a # us)" for a :: rat
  by (induction us arbitrary: a) (auto simp: max_def)

lemma foldl_min_le: "\<forall>u \<in> set (a # us). foldl min a us \<le> u" for a :: rat
proof (induction us arbitrary: a)
  case Nil
  then show ?case by simp
next
  case (Cons x us)
  from Cons.IH [of "min a x"] show ?case by (auto simp: min_def split: if_splits)
qed

lemma foldl_max_ge: "\<forall>u \<in> set (a # us). u \<le> foldl max a us" for a :: rat
proof (induction us arbitrary: a)
  case Nil
  then show ?case by simp
next
  case (Cons x us)
  from Cons.IH [of "max a x"] show ?case by (auto simp: max_def split: if_splits)
qed

lemma lo_in: "us \<noteq> [] \<Longrightarrow> lo us \<in> set us"
  using foldl_min_in [where a = "hd us" and us = "tl us"] by (cases us) (simp_all add: lo_def)

lemma hi_in: "us \<noteq> [] \<Longrightarrow> hi us \<in> set us"
  using foldl_max_in [where a = "hd us" and us = "tl us"] by (cases us) (simp_all add: hi_def)

lemma lo_le: "u \<in> set us \<Longrightarrow> lo us \<le> u"
  using foldl_min_le [where a = "hd us" and us = "tl us"] by (cases us) (auto simp: lo_def)

lemma hi_ge: "u \<in> set us \<Longrightarrow> u \<le> hi us"
  using foldl_max_ge [where a = "hd us" and us = "tl us"] by (cases us) (auto simp: hi_def)

lemma foldl_jmin_mono:
  fixes g :: "rat \<Rightarrow> jsnum"
  assumes "\<And>u v. u \<in> set (a # us) \<Longrightarrow> v \<in> set (a # us) \<Longrightarrow> u \<le> v \<Longrightarrow> jmin (g u) (g v) = g u"
  shows "foldl jmin (g a) (map g us) = g (foldl min a us)"
  using assms
proof (induction us arbitrary: a)
  case Nil
  show ?case by simp
next
  case (Cons u us)
  have step: "jmin (g a) (g u) = g (min a u)"
  proof (cases "a \<le> u")
    case True
    then show ?thesis using Cons.prems [of a u] by (simp add: min_def)
  next
    case False
    then have "u \<le> a" by simp
    then have "jmin (g u) (g a) = g u" using Cons.prems [of u a] by simp
    then show ?thesis using False by (simp add: min_def jmin_commute)
  qed
  have "foldl jmin (g (min a u)) (map g us) = g (foldl min (min a u) us)"
  proof (rule Cons.IH)
    fix x y :: rat
    assume "x \<in> set (min a u # us)" "y \<in> set (min a u # us)" "x \<le> y"
    then show "jmin (g x) (g y) = g x"
      using Cons.prems [of x y] by (auto simp: min_def split: if_splits)
  qed
  then show ?case by (simp add: step)
qed

lemma foldl_jmax_mono:
  fixes g :: "rat \<Rightarrow> jsnum"
  assumes "\<And>u v. u \<in> set (a # us) \<Longrightarrow> v \<in> set (a # us) \<Longrightarrow> u \<le> v \<Longrightarrow> jmax (g u) (g v) = g v"
  shows "foldl jmax (g a) (map g us) = g (foldl max a us)"
  using assms
proof (induction us arbitrary: a)
  case Nil
  show ?case by simp
next
  case (Cons u us)
  have step: "jmax (g a) (g u) = g (max a u)"
  proof (cases "a \<le> u")
    case True
    then show ?thesis using Cons.prems [of a u] by (simp add: max_def)
  next
    case False
    then have "u \<le> a" by simp
    then have "jmax (g u) (g a) = g a" using Cons.prems [of u a] by simp
    then show ?thesis using False by (simp add: max_def jmax_commute)
  qed
  have "foldl jmax (g (max a u)) (map g us) = g (foldl max (max a u) us)"
  proof (rule Cons.IH)
    fix x y :: rat
    assume "x \<in> set (max a u # us)" "y \<in> set (max a u # us)" "x \<le> y"
    then show "jmax (g x) (g y) = g y"
      using Cons.prems [of x y] by (auto simp: max_def split: if_splits)
  qed
  then show ?case by (simp add: step)
qed

lemma box_axis:
  fixes g :: "rat \<Rightarrow> jsnum"
  assumes ne: "us \<noteq> []"
      and mono: "\<And>u v. u \<in> set us \<Longrightarrow> v \<in> set us \<Longrightarrow> u \<le> v
                  \<Longrightarrow> jmin (g u) (g v) = g u \<and> jmax (g u) (g v) = g v"
  shows "foldl jmin PInf (map g us) = g (lo us)" and "foldl jmax NInf (map g us) = g (hi us)"
proof -
  obtain a vs where us: "us = a # vs" using ne by (cases us) auto
  have "foldl jmin (g a) (map g vs) = g (foldl min a vs)"
    by (rule foldl_jmin_mono) (use mono us in auto)
  then show "foldl jmin PInf (map g us) = g (lo us)" by (simp add: us lo_def)
  have "foldl jmax (g a) (map g vs) = g (foldl max a vs)"
    by (rule foldl_jmax_mono) (use mono us in auto)
  then show "foldl jmax NInf (map g us) = g (hi us)" by (simp add: us hi_def)
qed

text \<open>
  The bounds of a list of coordinates that all get the same displacement \<open>p\<close>, when the
  bounds without displacement are finite: the finite bounds, displaced.
\<close>

lemma axis_shift:
  assumes ne: "us \<noteq> []"
      and l: "foldl jmin PInf (map (\<lambda>u. jadd (double u) (Num 0)) us) = Num l"
      and h: "foldl jmax NInf (map (\<lambda>u. jadd (double u) (Num 0)) us) = Num h"
  shows "foldl jmin PInf (map (\<lambda>u. jadd (double u) p) us) = jadd (Num l) p"
    and "foldl jmax NInf (map (\<lambda>u. jadd (double u) p) us) = jadd (Num h) p"
    and "l \<le> h" and "is_double l" and "is_double h"
proof -
  have z: "(\<lambda>u. jadd (double u) (Num 0)) = double"
    by (rule ext) (simp add: jadd_zero)
  have m: "jmin (double u) (double v) = double u \<and> jmax (double u) (double v) = double v"
    if "u \<le> v" for u v
    using jle_min_max [OF double_mono [OF that]] .
  have dl: "double (lo us) = Num l" and dh: "double (hi us) = Num h"
    using box_axis [of us double, OF ne] m l h unfolding z by simp_all
  show "is_double l" "is_double h"
    using dl dh by (auto intro: is_double_double)
  have "jle (double (lo us)) (double (hi us))"
    by (intro double_mono) (simp add: lo_le hi_in ne)
  then show "l \<le> h" by (simp add: dl dh)
  have fin: "\<exists>t. double u = Num t" if "u \<in> set us" for u
  proof -
    have "jle (Num l) (double u)" "jle (double u) (Num h)"
      using double_mono [OF lo_le [OF that]] double_mono [OF hi_ge [OF that]] by (simp_all add: dl dh)
    from jle_between [OF this] show ?thesis by blast
  qed
  have g: "jmin (jadd (double u) p) (jadd (double v) p) = jadd (double u) p
         \<and> jmax (jadd (double u) p) (jadd (double v) p) = jadd (double v) p"
    if uv: "u \<in> set us" "v \<in> set us" "u \<le> v" for u v
  proof -
    obtain a b where ab: "double u = Num a" "double v = Num b"
      using fin [OF uv(1)] fin [OF uv(2)] by blast
    have "a \<le> b" using double_mono [OF uv(3)] by (simp add: ab)
    from jadd_right_mono [OF this] show ?thesis by (simp add: ab)
  qed
  show "foldl jmin PInf (map (\<lambda>u. jadd (double u) p) us) = jadd (Num l) p"
    using box_axis(1) [of us "\<lambda>u. jadd (double u) p", OF ne] g by (simp add: dl)
  show "foldl jmax NInf (map (\<lambda>u. jadd (double u) p) us) = jadd (Num h) p"
    using box_axis(2) [of us "\<lambda>u. jadd (double u) p", OF ne] g by (simp add: dh)
qed

text \<open>A point in world space, for an object whose scale is finite.\<close>

lemma matrixWorld_finite:
  assumes s: "scale ob = vec (Num sx) (Num sy) (Num sz)"
      and d: "is_double sx" "is_double sy" "is_double sz"
  shows "matrixWorld ob =
     Matrix4 (Num sx) (Num 0) (Num 0) (Num 0) (Num 0) (Num sy) (Num 0) (Num 0)
             (Num 0) (Num 0) (Num sz) (Num 0)
             (vx (position ob)) (vy (position ob)) (vz (position ob)) (Num 1)"
  using d by (simp add: matrixWorld_def compose_def s vec_def is_double_def)

lemma localToWorld_finite:
  assumes s: "scale ob = vec (Num sx) (Num sy) (Num sz)"
      and d: "is_double sx" "is_double sy" "is_double sz"
  shows "localToWorld ob (a, b, c) =
     vec (jadd (double (sx * a)) (vx (position ob)))
         (jadd (double (sy * b)) (vy (position ob)))
         (jadd (double (sz * c)) (vz (position ob)))"
  unfolding localToWorld_def matrixWorld_finite [OF s d]
  by (simp add: jadd_zero jadd_zero_left jmul_one)

lemma world_coordinates:
  assumes s: "scale ob = vec (Num sx) (Num sy) (Num sz)"
      and d: "is_double sx" "is_double sy" "is_double sz"
  shows "map vx (map (localToWorld ob) g)
          = map (\<lambda>u. jadd (double u) (vx (position ob))) (map (\<lambda>v. sx * fst v) g)"
    and "map vy (map (localToWorld ob) g)
          = map (\<lambda>u. jadd (double u) (vy (position ob))) (map (\<lambda>v. sy * fst (snd v)) g)"
    and "map vz (map (localToWorld ob) g)
          = map (\<lambda>u. jadd (double u) (vz (position ob))) (map (\<lambda>v. sz * snd (snd v)) g)"
  by (induction g) (auto simp: localToWorld_finite [OF s d] vec_def)

lemma setFromObject_finite:
  assumes s: "scale ob = vec (Num sx) (Num sy) (Num sz)"
      and d: "is_double sx" "is_double sy" "is_double sz"
  shows "vx (box_min (setFromObject ob))
          = foldl jmin PInf (map (\<lambda>u. jadd (double u) (vx (position ob))) (map (\<lambda>v. sx * fst v) (geometry ob)))"
    and "vy (box_min (setFromObject ob))
          = foldl jmin PInf (map (\<lambda>u. jadd (double u) (vy (position ob))) (map (\<lambda>v. sy * fst (snd v)) (geometry ob)))"
    and "vz (box_min (setFromObject ob))
          = foldl jmin PInf (map (\<lambda>u. jadd (double u) (vz (position ob))) (map (\<lambda>v. sz * snd (snd v)) (geometry ob)))"
    and "vx (box_max (setFromObject ob))
          = foldl jmax NInf (map (\<lambda>u. jadd (double u) (vx (position ob))) (map (\<lambda>v. sx * fst v) (geometry ob)))"
    and "vy (box_max (setFromObject ob))
          = foldl jmax NInf (map (\<lambda>u. jadd (double u) (vy (position ob))) (map (\<lambda>v. sy * fst (snd v)) (geometry ob)))"
    and "vz (box_max (setFromObject ob))
          = foldl jmax NInf (map (\<lambda>u. jadd (double u) (vz (position ob))) (map (\<lambda>v. sz * snd (snd v)) (geometry ob)))"
  unfolding setFromObject_def setFromPoints_min_x setFromPoints_min_y setFromPoints_min_z
    setFromPoints_max_x setFromPoints_max_y setFromPoints_max_z world_coordinates [OF s d]
  by (simp_all add: makeEmpty_def vec_def)

lemma maxDimension_empty: "geometry ob = [] \<Longrightarrow> maxDimension ob = Num 0"
  by (simp add: maxDimension_def setFromObject_def makeEmpty_def getSize_def isEmpty_def vec_def
      jmax_def)

lemma targetSize_eq: "targetSize = Num 5"
  using is_double_numeral [of "num.Bit1 (num.Bit0 num.One)"]
  by (simp add: targetSize_def gridSize_def is_double_def)

lemma jadd_NaN_right [simp]: "jadd a NaN = NaN"
  by (cases a) simp_all

lemma jmul_NaN_right [simp]: "jmul a NaN = NaN"
  by (cases a) simp_all

lemma foldl_jmin_NaN: "foldl jmin NaN xs = NaN"
  by (induction xs) (simp_all add: jmin_def)

lemma foldl_jmin_all_NaN: "xs \<noteq> [] \<Longrightarrow> \<forall>x \<in> set xs. x = NaN \<Longrightarrow> foldl jmin a xs = NaN"
  by (cases xs) (simp_all add: jmin_def foldl_jmin_NaN)

text \<open>
  With a scale that is not finite on some axis, every point in world space has a
  coordinate that is NaN, and so has the bounding box of an object with a point.
\<close>

lemma nonfinite_scale:
  assumes "\<And>sx sy sz. scale ob \<noteq> vec (Num sx) (Num sy) (Num sz)"
  shows "(\<forall>v. vx (localToWorld ob v) = NaN) \<or> (\<forall>v. vy (localToWorld ob v) = NaN)"
proof -
  have z: "jmul (Num 0) a = NaN" if "\<And>t. a \<noteq> Num t" for a
    using that by (cases a) auto
  have sc: "scale ob = vec (vx (scale ob)) (vy (scale ob)) (vz (scale ob))"
    by (simp add: vec_def)
  consider "\<And>t. vx (scale ob) \<noteq> Num t" | "\<And>t. vy (scale ob) \<noteq> Num t"
    | "\<And>t. vz (scale ob) \<noteq> Num t"
    using assms sc by metis
  then show ?thesis
  proof cases
    case 1
    from z [OF this] have "\<forall>v. vy (localToWorld ob v) = NaN"
      by (simp add: localToWorld_def matrixWorld_def compose_def vec_def Let_def)
    then show ?thesis ..
  next
    case 2
    from z [OF this] have "\<forall>v. vx (localToWorld ob v) = NaN"
      by (simp add: localToWorld_def matrixWorld_def compose_def vec_def Let_def)
    then show ?thesis ..
  next
    case 3
    from z [OF this] have "\<forall>v. vx (localToWorld ob v) = NaN"
      by (simp add: localToWorld_def matrixWorld_def compose_def vec_def Let_def)
    then show ?thesis ..
  qed
qed

lemma finite_box_scale:
  assumes g: "geometry ob \<noteq> []"
      and x: "vx (box_min (setFromObject ob)) = Num lx"
      and y: "vy (box_min (setFromObject ob)) = Num ly"
  shows "\<exists>sx sy sz. scale ob = vec (Num sx) (Num sy) (Num sz)"
proof (rule ccontr)
  assume "\<not> ?thesis"
  then have "\<And>sx sy sz. scale ob \<noteq> vec (Num sx) (Num sy) (Num sz)" by blast
  from nonfinite_scale [OF this] show False
  proof
    assume "\<forall>v. vx (localToWorld ob v) = NaN"
    then have "vx (box_min (setFromObject ob)) = NaN"
      unfolding setFromObject_def setFromPoints_min_x using g
      by (intro foldl_jmin_all_NaN) auto
    then show False using x by simp
  next
    assume "\<forall>v. vy (localToWorld ob v) = NaN"
    then have "vy (box_min (setFromObject ob)) = NaN"
      unfolding setFromObject_def setFromPoints_min_y using g
      by (intro foldl_jmin_all_NaN) auto
    then show False using y by simp
  qed
qed

lemma rescale_scale:
  assumes s: "scale ob = vec (Num sx) (Num sy) (Num sz)"
      and d: "is_double sx" "is_double sy" "is_double sz"
      and m: "maxDimension ob = Num m"
  shows "scale (rescale ob) = multiplyScalar (scale ob) (jdiv targetSize (Num m))"
proof (cases "m = 5")
  case True
  then have "rescale ob = ob" by (simp add: rescale_def m targetSize_eq jseq_def)
  moreover have "multiplyScalar (scale ob) (jdiv targetSize (Num m)) = scale ob"
    using True d by (simp add: multiplyScalar_def targetSize_eq s vec_def is_double_def)
  ultimately show ?thesis by simp
next
  case False
  then show ?thesis by (simp add: rescale_def m targetSize_eq jseq_def)
qed

lemma rescale_fields [simp]:
  "position (rescale ob) = position ob" "geometry (rescale ob) = geometry ob"
  by (simp_all add: rescale_def)

lemma getCenter_representable:
  "representable (vx (getCenter b))" "representable (vy (getCenter b))" "representable (vz (getCenter b))"
  by (simp_all add: getCenter_def multiplyScalar_def vec_def)

lemma getCenter_finite:
  assumes "lx \<le> hx" "ly \<le> hy" "lz \<le> hz"
  shows "getCenter \<lparr>box_min = vec (Num lx) (Num ly) (Num lz), box_max = vec (Num hx) (Num hy) (Num hz)\<rparr>
         = vec (jmul (double (lx + hx)) (Num (1 / 2))) (jmul (double (ly + hy)) (Num (1 / 2)))
               (jmul (double (lz + hz)) (Num (1 / 2)))"
  using assms by (simp add: getCenter_def isEmpty_def multiplyScalar_def vec_def)

lemma centre_of_shifted:
  assumes e: "exact_centre l h"
      and c: "c = jmul (double (l + h)) (Num (1 / 2))"
      and b: "vx (box_min b) = jsub (Num l) c" "vx (box_max b) = jsub (Num h) c"
  shows "vx (getCenter b) = Num 0"
proof -
  define m where "m = (l + h) / 2"
  have c': "c = Num m"
    using e by (simp add: c exact_centre_def is_double_def m_def)
  have "vx (box_min b) = Num (l - m)" "vx (box_max b) = Num (h - m)"
    using e by (simp_all add: b c' jsub_Num exact_centre_def is_double_def m_def)
  moreover have "l - m + (h - m) = 0" by (simp add: m_def field_simps)
  ultimately show ?thesis
    by (simp add: getCenter_def multiplyScalar_def vec_def)
qed

lemma centre_of_shifted_z:
  assumes e: "exact_centre l h"
      and c: "c = jmul (double (l + h)) (Num (1 / 2))"
      and b: "vz (box_min b) = jsub (Num l) c" "vz (box_max b) = jsub (Num h) c"
  shows "vz (getCenter b) = Num 0"
proof -
  define m where "m = (l + h) / 2"
  have c': "c = Num m"
    using e by (simp add: c exact_centre_def is_double_def m_def)
  have "vz (box_min b) = Num (l - m)" "vz (box_max b) = Num (h - m)"
    using e by (simp_all add: b c' jsub_Num exact_centre_def is_double_def m_def)
  moreover have "l - m + (h - m) = 0" by (simp add: m_def field_simps)
  ultimately show ?thesis
    by (simp add: getCenter_def multiplyScalar_def vec_def)
qed

lemma centre_error:
  assumes c: "c = jmul (double (l + h)) (Num (1 / 2))"
      and b: "vx (box_min b) = jsub (Num l) c" "vx (box_max b) = jsub (Num h) c"
      and r: "vx (getCenter b) = Num r"
  shows "\<bar>r\<bar> \<le> (\<bar>l\<bar> + \<bar>h\<bar>) / 2251799813685248 + two_power (- 1072)"
proof (cases "isEmpty b")
  case True
  then have "r = 0" using r by (simp add: getCenter_def vec_def)
  then show ?thesis by simp
next
  case False
  then have "jmul (jadd (jsub (Num l) c) (jsub (Num h) c)) (Num (1 / 2)) = Num r"
    using r by (simp add: getCenter_def multiplyScalar_def vec_def b)
  then show ?thesis using c by (rule recentred_error)
qed

lemma centre_error_z:
  assumes c: "c = jmul (double (l + h)) (Num (1 / 2))"
      and b: "vz (box_min b) = jsub (Num l) c" "vz (box_max b) = jsub (Num h) c"
      and r: "vz (getCenter b) = Num r"
  shows "\<bar>r\<bar> \<le> (\<bar>l\<bar> + \<bar>h\<bar>) / 2251799813685248 + two_power (- 1072)"
proof (cases "isEmpty b")
  case True
  then have "r = 0" using r by (simp add: getCenter_def vec_def)
  then show ?thesis by simp
next
  case False
  then have "jmul (jadd (jsub (Num l) c) (jsub (Num h) c)) (Num (1 / 2)) = Num r"
    using r by (simp add: getCenter_def multiplyScalar_def vec_def b)
  then show ?thesis using c by (rule recentred_error)
qed

text \<open>
  Under the world matrix of a group with the scale \<open>(1, 1, 1)\<close>, the box of a scene with a
  finite scale and a finite position is the box of the scene taken on its own.
\<close>

lemma setFromChild_first:
  assumes s: "scale ob = vec (Num sx) (Num sy) (Num sz)"
      and d: "is_double sx" "is_double sy" "is_double sz"
      and p: "position ob = vec (Num px) (Num py) (Num pz)"
      and dp: "is_double px" "is_double py" "is_double pz"
  shows "setFromChild (vec (Num 1) (Num 1) (Num 1)) ob = setFromObject ob"
proof -
  have "multiplyMatrices (compose (vec (Num 0) (Num 0) (Num 0)) (vec (Num 1) (Num 1) (Num 1)))
          (matrixWorld ob) = matrixWorld ob"
    using d dp unfolding matrixWorld_finite [OF s d]
    by (simp add: compose_def vec_def dot4_def p is_double_def)
  then show ?thesis by (simp add: setFromChild_def setFromObject_def localToWorld_def [abs_def])
qed

lemma app_loadModel_scale:
  assumes s: "scale ob = vec (Num sx) (Num sy) (Num sz)"
      and d: "is_double sx" "is_double sy" "is_double sz"
      and p: "position ob = vec (Num px) (Num py) (Num pz)"
      and dp: "is_double px" "is_double py" "is_double pz"
      and m: "maxDimension ob = Num m"
  shows "snd (app_loadModel (vec (Num 1) (Num 1) (Num 1)) ob)
         = (if 4 < m then vec (jdiv (Num 4) (Num m)) (jdiv (Num 4) (Num m)) (jdiv (Num 4) (Num m))
            else vec (Num 1) (Num 1) (Num 1))"
  using m unfolding app_loadModel_def setFromChild_first [OF s d p dp]
  by (auto simp: maxDimension_def Let_def jmul_one)


lemma example_facts:
  "maxDimension example_scene = Num 4"
  "setFromObject (rescale example_scene) =
     \<lparr>box_min = vec (Num (- (5 / 2))) (Num 0) (Num (- (5 / 4))),
      box_max = vec (Num (5 / 2)) (Num 5) (Num (5 / 4))\<rparr>"
  "exact_centre (- (5 / 2)) (5 / 2)" "exact_centre (- (5 / 4)) (5 / 4)"
  "jdiv targetSize (Num 4) = Num (5 / 4)"
  by code_simp+



text \<open>
  Claim C2. \<open>setContent\<close> has no guard for a largest dimension of 0. For a scene that is a
  single point the test \<open>maxDimension !== targetSize\<close> holds, the division
  \<open>targetSize / maxDimension\<close> is carried out with a zero divisor and yields
  \<open>Infinity\<close>, and the rescaling is not skipped: the scale of the object becomes
  \<open>Infinity\<close> on every axis, and its position is no longer a number. On its first load,
  the loader of the standalone page leaves the scale at 1 for the same scene.
\<close>

theorem setContent_zero_volume:
  "maxDimension single_point = Num 0
   \<and> jdiv targetSize (maxDimension single_point) = PInf
   \<and> scale (setContent single_point) = vec PInf PInf PInf
   \<and> position (setContent single_point) = vec NaN NaN NaN
   \<and> snd (app_loadModel (vec (Num 1) (Num 1) (Num 1)) single_point) = vec (Num 1) (Num 1) (Num 1)"
  by code_simp

section \<open>Properties of the 2D composite and the capture\<close>

lemma renderThumbnail_scale [simp]: "thumbnailScale (renderThumbnail g b s) = thumbnailScale s"
  by (simp add: renderThumbnail_def Let_def split: option.splits)
lemma renderThumbnail_offset [simp]: "thumbnailOffset (renderThumbnail g b s) = thumbnailOffset s"
  by (simp add: renderThumbnail_def Let_def split: option.splits)
lemma renderThumbnail_dragStart [simp]: "thumbnailDragStart (renderThumbnail g b s) = thumbnailDragStart s"
  by (simp add: renderThumbnail_def Let_def split: option.splits)
lemma renderThumbnail_dragging [simp]: "thumbnailDragging (renderThumbnail g b s) = thumbnailDragging s"
  by (simp add: renderThumbnail_def Let_def split: option.splits)
lemma renderThumbnail_image [simp]: "thumbnailImage (renderThumbnail g b s) = thumbnailImage s"
  by (simp add: renderThumbnail_def Let_def split: option.splits)
lemma renderThumbnail_snapshot [simp]: "newSnapshotData (renderThumbnail g b s) = newSnapshotData s"
  by (simp add: renderThumbnail_def Let_def split: option.splits)
lemma renderThumbnail_guides [simp]: "showThumbnailGuides (renderThumbnail g b s) = showThumbnailGuides s"
  by (simp add: renderThumbnail_def Let_def split: option.splits)
lemma renderThumbnail_guidesImage [simp]: "guidesImage (renderThumbnail g b s) = guidesImage s"
  by (simp add: renderThumbnail_def Let_def split: option.splits)

lemma canvasPoint_cong:
  "c_width c' = c_width c \<Longrightarrow> c_height c' = c_height c \<Longrightarrow> c_rect c' = c_rect c
   \<Longrightarrow> canvasPoint c' ev = canvasPoint c ev"
  by (simp add: canvasPoint_def)

lemma renderThumbnail_canvas:
  assumes "thumbnailCanvas s = Some c"
  shows "\<exists>c'. thumbnailCanvas (renderThumbnail g b s) = Some c'
            \<and> c_width c' = c_width c \<and> c_height c' = c_height c \<and> c_rect c' = c_rect c"
  using assms
  by (auto simp: renderThumbnail_def Let_def drawSnapshot_def drawGuides_def fillBackground_def
      clearRect_def drawOn_def split: option.splits)

lemma jsub_int:
  assumes "\<bar>i - j\<bar> \<le> 9007199254740992"
  shows "jsub (Num (of_int i)) (Num (of_int j)) = Num (of_int i - of_int j)"
  using is_double_of_int [OF assms] by (simp add: jsub_Num is_double_def)

lemma jsub_back:
  assumes "is_double ox" and "jsub (Num ax) (Num ox) = Num (ax - ox)"
  shows "jsub (Num ax) (jsub (Num ax) (Num ox)) = Num ox"
  using assms by (simp add: jsub_Num is_double_def)

text \<open>
  Claim C7, as amended. The offset is finite, there is a canvas, and the pointer position
  \<open>a\<close> falls on a finite canvas point. Then the pointer-down handler sets the anchor to
  the difference of canvas point and offset and leaves the offset alone, a move to any
  position \<open>b\<close> sets the offset to the difference of the canvas point of \<open>b\<close> and the
  anchor, and the drag down at \<open>a\<close>, to \<open>b\<close>, back to \<open>a\<close> and up does not raise, ends
  with the dragging flag off and leaves the offset \<open>a - (a - offset)\<close>, each difference
  rounded to a double. That is the offset before the drag whenever the difference
  \<open>a - offset\<close> is a double on both axes, as it is for whole numbers that are less than
  \<open>2 ^ 53\<close> apart. In any case the offset left, when it is finite, is the offset before
  the drag up to the two roundings: on each axis the two differ by at most the fraction
  \<open>2 ^ -51\<close> of \<open>|a| + |offset|\<close>, plus \<open>2 ^ -1073\<close>.
\<close>

theorem drag_round_trip:
  assumes c: "thumbnailCanvas s = Some c"
      and a: "canvasPoint c a = \<lparr>ptx = Num ax, pty = Num ay\<rparr>"
      and o: "thumbnailOffset s = \<lparr>ptx = Num ox, pty = Num oy\<rparr>"
      and d: "is_double ox" "is_double oy"
  shows "\<exists>s1 s2 s'.
           onThumbnailMouseDown a s = Inr s1
         \<and> thumbnailDragStart s1 = \<lparr>ptx = jsub (Num ax) (Num ox), pty = jsub (Num ay) (Num oy)\<rparr>
         \<and> thumbnailOffset s1 = thumbnailOffset s
         \<and> onThumbnailMouseMove b s1 = Inr s2
         \<and> thumbnailOffset s2 = \<lparr>ptx = jsub (ptx (canvasPoint c b)) (jsub (Num ax) (Num ox)),
                                  pty = jsub (pty (canvasPoint c b)) (jsub (Num ay) (Num oy))\<rparr>
         \<and> dragThereAndBack a b s = Inr s'
         \<and> \<not> thumbnailDragging s'
         \<and> thumbnailOffset s' = \<lparr>ptx = jsub (Num ax) (jsub (Num ax) (Num ox)),
                                  pty = jsub (Num ay) (jsub (Num ay) (Num oy))\<rparr>
         \<and> (jsub (Num ax) (Num ox) = Num (ax - ox) \<and> jsub (Num ay) (Num oy) = Num (ay - oy)
              \<longrightarrow> thumbnailOffset s' = thumbnailOffset s)
         \<and> ((\<exists>i j k l. ax = of_int i \<and> ox = of_int j \<and> ay = of_int k \<and> oy = of_int l
                       \<and> \<bar>i - j\<bar> \<le> 9007199254740992 \<and> \<bar>k - l\<bar> \<le> 9007199254740992)
              \<longrightarrow> thumbnailOffset s' = thumbnailOffset s)
         \<and> (\<forall>rx ry. thumbnailOffset s' = \<lparr>ptx = Num rx, pty = Num ry\<rparr>
              \<longrightarrow> \<bar>rx - ox\<bar> \<le> (\<bar>ax\<bar> + \<bar>ox\<bar>) / 2251799813685248 + two_power (- 1073)
                \<and> \<bar>ry - oy\<bar> \<le> (\<bar>ay\<bar> + \<bar>oy\<bar>) / 2251799813685248 + two_power (- 1073))"
proof -
  define start where "start = \<lparr>ptx = jsub (Num ax) (Num ox), pty = jsub (Num ay) (Num oy)\<rparr>"
  define s1 where "s1 = s\<lparr>thumbnailDragging := True, thumbnailDragStart := start\<rparr>"
  have d1: "onThumbnailMouseDown a s = Inr s1"
    by (simp add: onThumbnailMouseDown_def c a o s1_def start_def)
  define s1' where "s1' = s1\<lparr>thumbnailOffset :=
      \<lparr>ptx = jsub (ptx (canvasPoint c b)) (ptx start),
       pty = jsub (pty (canvasPoint c b)) (pty start)\<rparr>\<rparr>"
  define s2 where "s2 = renderThumbnail None True s1'"
  have m1: "onThumbnailMouseMove b s1 = Inr s2"
    by (simp add: onThumbnailMouseMove_def s1_def c s2_def s1'_def)
  have "thumbnailCanvas s1' = Some c"
    by (simp add: s1'_def s1_def c)
  from renderThumbnail_canvas [OF this, of None True]
  obtain c2 where c2: "thumbnailCanvas s2 = Some c2" "c_width c2 = c_width c"
      "c_height c2 = c_height c" "c_rect c2 = c_rect c"
    unfolding s2_def by blast
  have a2: "canvasPoint c2 a = \<lparr>ptx = Num ax, pty = Num ay\<rparr>"
    using canvasPoint_cong [OF c2(2,3,4)] a by simp
  have dr2: "thumbnailDragging s2" "thumbnailDragStart s2 = start"
    by (simp_all add: s2_def s1'_def s1_def)
  define s3 where "s3 = renderThumbnail None True
      (s2\<lparr>thumbnailOffset := \<lparr>ptx = jsub (Num ax) (ptx start), pty = jsub (Num ay) (pty start)\<rparr>\<rparr>)"
  have m2: "onThumbnailMouseMove a s2 = Inr s3"
    by (simp add: onThumbnailMouseMove_def dr2 c2(1) a2 s3_def)
  define s' where "s' = onThumbnailMouseUp s3"
  have all: "dragThereAndBack a b s = Inr s'"
    by (simp add: dragThereAndBack_def d1 m1 m2 s'_def)
  have off: "thumbnailOffset s' = \<lparr>ptx = jsub (Num ax) (jsub (Num ax) (Num ox)),
                                   pty = jsub (Num ay) (jsub (Num ay) (Num oy))\<rparr>"
    by (simp add: s'_def onThumbnailMouseUp_def s3_def start_def)
  have exact: "thumbnailOffset s' = thumbnailOffset s"
    if "jsub (Num ax) (Num ox) = Num (ax - ox)" "jsub (Num ay) (Num oy) = Num (ay - oy)"
    using jsub_back [OF d(1) that(1)] jsub_back [OF d(2) that(2)] by (simp add: off o)
  have whole: "thumbnailOffset s' = thumbnailOffset s"
    if "\<exists>i j k l. ax = of_int i \<and> ox = of_int j \<and> ay = of_int k \<and> oy = of_int l
                       \<and> \<bar>i - j\<bar> \<le> 9007199254740992 \<and> \<bar>k - l\<bar> \<le> 9007199254740992"
  proof -
    from that obtain i j k l where w: "ax = of_int i" "ox = of_int j" "ay = of_int k" "oy = of_int l"
        "\<bar>i - j\<bar> \<le> 9007199254740992" "\<bar>k - l\<bar> \<le> 9007199254740992" by blast
    show ?thesis
      using jsub_int [OF w(5)] jsub_int [OF w(6)] by (intro exact) (simp_all add: w)
  qed
  have near: "\<bar>rx - ox\<bar> \<le> (\<bar>ax\<bar> + \<bar>ox\<bar>) / 2251799813685248 + two_power (- 1073)
              \<and> \<bar>ry - oy\<bar> \<le> (\<bar>ay\<bar> + \<bar>oy\<bar>) / 2251799813685248 + two_power (- 1073)"
    if "thumbnailOffset s' = \<lparr>ptx = Num rx, pty = Num ry\<rparr>" for rx ry
  proof -
    from that off have "jsub (Num ax) (jsub (Num ax) (Num ox)) = Num rx"
        "jsub (Num ay) (jsub (Num ay) (Num oy)) = Num ry"
      by simp_all
    then show ?thesis by (intro conjI jsub_back_error)
  qed
  have "thumbnailDragStart s1 = \<lparr>ptx = jsub (Num ax) (Num ox), pty = jsub (Num ay) (Num oy)\<rparr>"
       "thumbnailOffset s1 = thumbnailOffset s"
    by (simp_all add: s1_def start_def)
  moreover have "thumbnailOffset s2 = \<lparr>ptx = jsub (ptx (canvasPoint c b)) (jsub (Num ax) (Num ox)),
                                  pty = jsub (pty (canvasPoint c b)) (jsub (Num ay) (Num oy))\<rparr>"
    by (simp add: s2_def s1'_def start_def)
  moreover have "\<not> thumbnailDragging s'"
    by (simp add: s'_def onThumbnailMouseUp_def)
  ultimately show ?thesis
    using d1 m1 all off exact whole near by blast
qed

lemma app1_canvas:
  "thumbnailCanvas app1 = Some canvas1" "thumbnailImage app1 = Some image1"
  "renderThumbnail None True app1 = app1"
  by code_simp+

lemma pointA_on_canvas1: "canvasPoint canvas1 pointA = \<lparr>ptx = Num 200, pty = Num 100\<rparr>"
  by code_simp

text \<open>
  A drag from \<open>pointA\<close> to \<open>pointB\<close> and back in the state \<open>app3\<close>, whose offset is
  \<open>(10, -5)\<close>: the canvas point of \<open>pointA\<close> is \<open>(200, 100)\<close>.
\<close>

theorem drag_round_trip_witness:
  "map_sum id thumbnailOffset (dragThereAndBack pointA pointB app3)
   = Inr \<lparr>ptx = Num 10, pty = Num (- 5)\<rparr>"
proof -
  have c: "thumbnailCanvas app3 = Some canvas1"
    by (simp add: app3_def app1_canvas)
  have o: "thumbnailOffset app3 = \<lparr>ptx = Num 10, pty = Num (- 5)\<rparr>"
    by (simp add: app3_def)
  have d: "is_double 10" "is_double (- 5)"
    using is_double_of_int [of 10] is_double_of_int [of "- 5"] by simp_all
  have "\<exists>i j k l. (200 :: rat) = of_int i \<and> (10 :: rat) = of_int j \<and> (100 :: rat) = of_int k
            \<and> (- 5 :: rat) = of_int l
            \<and> \<bar>i - j\<bar> \<le> 9007199254740992 \<and> \<bar>k - l\<bar> \<le> 9007199254740992"
    by (rule exI [of _ 200], rule exI [of _ 10], rule exI [of _ 100], rule exI [of _ "- 5"]) simp
  with drag_round_trip [OF c pointA_on_canvas1 o d, of pointB] show ?thesis
    by (auto simp: o)
qed

text \<open>
  After a drag by a twentieth of a pixel the offset on X is
  \<open>14073748835533 / 2 ^ 47\<close> (about \<open>0.10000000000000142\<close>); the drag from \<open>pointA\<close> to
  \<open>pointB\<close> and back then leaves \<open>3518437208883 / 2 ^ 45\<close> (about
  \<open>0.09999999999999432\<close>).
\<close>

theorem drag_round_trip_counterexample:
  "thumbnailOffset app_dragged = \<lparr>ptx = Num (14073748835533 / 140737488355328), pty = Num 0\<rparr>
   \<and> map_sum id thumbnailOffset (dragThereAndBack pointA pointB app_dragged)
       = Inr \<lparr>ptx = Num (3518437208883 / 35184372088832), pty = Num 0\<rparr>"
  by code_simp

text \<open>
  Claim C10. Without a canvas, without a drawing context or without a snapshot image,
  \<open>renderThumbnail\<close> returns at once: the state, the surface of the canvas included, is
  unchanged, whatever the arguments.
\<close>

theorem renderThumbnail_guard:
  "thumbnailCanvas s = None \<or> thumbnailCtx s = None \<or> thumbnailImage s = None
   \<Longrightarrow> renderThumbnail includeGrid includeBackground s = s"
  by (auto simp: renderThumbnail_def split: option.splits)

text \<open>The state after start-up has no snapshot image yet.\<close>

theorem renderThumbnail_guard_witness:
  "renderThumbnail None True (startup canvas0) = startup canvas0"
  using renderThumbnail_guard [of "startup canvas0" None True]
  by (simp add: startup_def)

lemma literal_values:
  "double (3 / 10) = Num (5404319552844595 / 18014398509481984)"
  "scaleSpeed = Num (3602879701896397 / 144115188075855872)"
  by code_simp+

lemma jmin_Num: "jmin (Num a) (Num b) = Num (min a b)"
  by (simp add: jmin_def min_def)

lemma jmax_Num: "jmax (Num a) (Num b) = Num (max a b)"
  by (simp add: jmax_def max_def)

lemma wheel_step:
  assumes s: "thumbnailScale s = Num r" and d: "is_double r"
      and r: "5404319552844595 / 18014398509481984 \<le> r" "r \<le> 3"
  shows "\<exists>r'. thumbnailScale (onThumbnailWheel d s) = Num r' \<and> is_double r'
            \<and> 5404319552844595 / 18014398509481984 \<le> r' \<and> r' \<le> 3"
proof -
  define lo where "lo = (5404319552844595 / 18014398509481984 :: rat)"
  define k where "k = (3602879701896397 / 144115188075855872 :: rat)"
  have lo: "is_double lo" "lo \<le> 3"
    using is_double_double [OF literal_values(1)] by (simp_all add: lo_def)
  have three: "is_double 3" by simp
  have dr: "double r = Num r" using d by (simp add: is_double_def)
  have rlo: "lo \<le> r" using r(1) by (simp add: lo_def)
  have "\<exists>r'. thumbnailScale (onThumbnailWheel d s) = Num r' \<and> is_double r' \<and> lo \<le> r' \<and> r' \<le> 3"
  proof (cases "jless d (Num 0)")
    case True
    then have e: "thumbnailScale (onThumbnailWheel d s) = jmin (Num 3) (double (r + k))"
      by (simp add: onThumbnailWheel_def s literal_values(2) k_def)
    have "jle (double r) (double (r + k))" by (intro double_mono) (simp add: k_def)
    then have le: "jle (Num r) (double (r + k))" by (simp add: dr)
    show ?thesis
    proof (cases "double (r + k)")
      case (Num v)
      then have "r \<le> v" using le by simp
      moreover have "is_double v" using Num by (rule is_double_double)
      ultimately have "is_double (min 3 v)" "lo \<le> min 3 v" "min 3 v \<le> 3"
        using three rlo lo by (auto simp: min_def)
      then show ?thesis unfolding e Num jmin_Num by blast
    next
      case PInf
      have "jmin (Num 3) PInf = Num 3" by (simp add: jmin_def)
      then show ?thesis using three lo unfolding e PInf by auto
    next
      case NInf
      then show ?thesis using le by (simp add: jle_def)
    next
      case NaN
      then show ?thesis using le by (simp add: jle_def)
    qed
  next
    case False
    then have e: "thumbnailScale (onThumbnailWheel d s) = jmax (Num lo) (double (r - k))"
      by (simp add: onThumbnailWheel_def s literal_values jsub_Num k_def lo_def)
    have "jle (double (r - k)) (double r)" by (intro double_mono) (simp add: k_def)
    then have le: "jle (double (r - k)) (Num r)" by (simp add: dr)
    show ?thesis
    proof (cases "double (r - k)")
      case (Num v)
      then have "v \<le> r" using le by simp
      moreover have "is_double v" using Num by (rule is_double_double)
      ultimately have "is_double (max lo v)" "lo \<le> max lo v" "max lo v \<le> 3"
        using r(2) lo by (auto simp: max_def)
      then show ?thesis unfolding e Num jmax_Num by blast
    next
      case NInf
      have "jmax (Num lo) NInf = Num lo" by (simp add: jmax_def)
      then show ?thesis using lo unfolding e NInf by auto
    next
      case PInf
      then show ?thesis using le by (simp add: jle_def)
    next
      case NaN
      then show ?thesis using le by (simp add: jle_def)
    qed
  qed
  then show ?thesis by (simp add: lo_def)
qed

lemma wheels_range:
  assumes "thumbnailScale s = Num r" and "is_double r"
      and "5404319552844595 / 18014398509481984 \<le> r" "r \<le> 3"
  shows "\<exists>r'. thumbnailScale (wheels ds s) = Num r' \<and> is_double r'
            \<and> 5404319552844595 / 18014398509481984 \<le> r' \<and> r' \<le> 3"
  using assms
proof (induction ds arbitrary: s r)
  case Nil
  then show ?case by simp
next
  case (Cons d ds)
  from wheel_step [OF Cons.prems, of d] obtain r1 where
    "thumbnailScale (onThumbnailWheel d s) = Num r1" "is_double r1"
    "5404319552844595 / 18014398509481984 \<le> r1" "r1 \<le> 3" by blast
  from Cons.IH [OF this] show ?case by simp
qed

text \<open>
  Claim C6. The literal \<open>0.3\<close> of the source is the double
  \<open>5404319552844595 / 2 ^ 54\<close>. Starting from the scale 1, after any list of wheel
  events the scale is a number in the closed interval from that double to 3, and every
  further wheel event sets it to the clamped value of the step: no event is refused.
\<close>

theorem wheel_scale_clamped:
  assumes "thumbnailScale s = Num 1"
  shows "(\<exists>r. thumbnailScale (wheels ds s) = Num r
              \<and> 5404319552844595 / 18014398509481984 \<le> r \<and> r \<le> 3)
       \<and> double (3 / 10) = Num (5404319552844595 / 18014398509481984)
       \<and> thumbnailScale (onThumbnailWheel d (wheels ds s))
           = (if jless d (Num 0)
              then jmin (Num 3) (jadd (thumbnailScale (wheels ds s)) scaleSpeed)
              else jmax (double (3 / 10)) (jsub (thumbnailScale (wheels ds s)) scaleSpeed))"
  using wheels_range [of s 1 ds] assms literal_values(1) by (auto simp: onThumbnailWheel_def)

lemma wheel_examples:
  "thumbnailScale (wheels [Num (- 100), Num (- 100), Num 100] (startup canvas0))
   = Num (2308094809027379 / 2251799813685248)"
  "thumbnailScale (onThumbnailWheel (Num 100) (startup canvas0))
   = Num (8782019273372467 / 9007199254740992)"
  by code_simp+

text \<open>
  Two wheel events up and one down from the start leave the double nearest to \<open>1.025\<close>,
  and one event down from the scale 1 the double nearest to \<open>0.975\<close>.
\<close>

theorem wheel_scale_clamped_witness:
  "(\<exists>r. thumbnailScale (wheels [Num (- 100), Num (- 100), Num 100] (startup canvas0)) = Num r
        \<and> 5404319552844595 / 18014398509481984 \<le> r \<and> r \<le> 3)
   \<and> thumbnailScale (wheels [Num (- 100), Num (- 100), Num 100] (startup canvas0))
       = Num (2308094809027379 / 2251799813685248)
   \<and> thumbnailScale (onThumbnailWheel (Num 100) (wheels [] (startup canvas0)))
       = Num (8782019273372467 / 9007199254740992)"
  using wheel_scale_clamped [of "startup canvas0" "[Num (- 100), Num (- 100), Num 100]" "Num 100"]
    wheel_scale_clamped [of "startup canvas0" "[]" "Num 100"] wheel_examples
  by (simp add: startup_def)

lemma capture_fields:
  "background (capture s) = background s"
  "gridHelper (capture s) = gridHelper s"
  "clearColor (capture s) = (1184274, 1)"
  "isLiveUpdating (capture s) = isLiveUpdating s"
  "lastThumbnailUpdate (capture s) = lastThumbnailUpdate s"
  "(thumbnailCanvas (capture s) = None) = (thumbnailCanvas s = None)"
  "(thumbnailCtx (capture s) = None) = (thumbnailCtx s = None)"
  "length (rendered (capture s)) = Suc (length (rendered s))"
  by (auto simp: capture_def Let_def split: option.splits)

lemma capture_frame:
  "last (rendered (capture s)) = \<lparr>f_background = None, f_grid = False, f_clearColor = (0, 0)\<rparr>"
  by (auto simp: capture_def Let_def render_def split: option.splits)

lemma update_dropped:
  "now - lastThumbnailUpdate s < THUMBNAIL_UPDATE_INTERVAL \<Longrightarrow> updateThumbnailFromViewport now s = s"
  by (simp add: updateThumbnailFromViewport_def)

lemma requests_dropped:
  "list_all (\<lambda>t. t - lastThumbnailUpdate s < THUMBNAIL_UPDATE_INTERVAL) ts \<Longrightarrow> requests ts s = s"
  by (induction ts) (simp_all add: update_dropped)

lemma update_cases:
  "updateThumbnailFromViewport now s = s
   \<or> (updateThumbnailFromViewport now s = capture (s\<lparr>lastThumbnailUpdate := now\<rparr>))"
  by (simp add: updateThumbnailFromViewport_def)

lemma within_interval_Cons:
  "within_interval (t # ts) \<Longrightarrow> within_interval ts \<and> list_all (\<lambda>b. b - t < THUMBNAIL_UPDATE_INTERVAL) ts"
  by (auto simp: within_interval_def list_all_iff)

lemma requests_within:
  "within_interval ts \<Longrightarrow> length (rendered (requests ts s)) \<le> Suc (length (rendered s))"
proof (induction ts arbitrary: s)
  case Nil
  then show ?case by simp
next
  case (Cons t ts)
  from within_interval_Cons [OF Cons.prems]
  have w: "within_interval ts" and l: "list_all (\<lambda>b. b - t < THUMBNAIL_UPDATE_INTERVAL) ts" by simp_all
  from update_cases [of t s] show ?case
  proof
    assume "updateThumbnailFromViewport t s = s"
    then show ?thesis using Cons.IH [OF w, of s] by simp
  next
    assume e: "updateThumbnailFromViewport t s = capture (s\<lparr>lastThumbnailUpdate := t\<rparr>)"
    have "lastThumbnailUpdate (capture (s\<lparr>lastThumbnailUpdate := t\<rparr>)) = t"
      by (simp add: capture_fields)
    then have "requests ts (capture (s\<lparr>lastThumbnailUpdate := t\<rparr>)) = capture (s\<lparr>lastThumbnailUpdate := t\<rparr>)"
      using l by (intro requests_dropped) simp
    then show ?thesis using e by (simp add: capture_fields)
  qed
qed

lemma requests_spaced:
  assumes "isLiveUpdating s" "thumbnailCanvas s \<noteq> None" "thumbnailCtx s \<noteq> None"
      and "spaced (lastThumbnailUpdate s) ts"
  shows "length (rendered (requests ts s)) = length (rendered s) + length ts"
  using assms
proof (induction ts arbitrary: s)
  case Nil
  then show ?case by simp
next
  case (Cons t ts)
  define s' where "s' = capture (s\<lparr>lastThumbnailUpdate := t\<rparr>)"
  have e: "updateThumbnailFromViewport t s = s'"
    using Cons.prems by (auto simp: updateThumbnailFromViewport_def s'_def)
  have "isLiveUpdating s'" "thumbnailCanvas s' \<noteq> None" "thumbnailCtx s' \<noteq> None"
       "spaced (lastThumbnailUpdate s') ts"
    using Cons.prems by (simp_all add: s'_def capture_fields)
  from Cons.IH [OF this] show ?case
    by (simp add: e) (simp add: s'_def capture_fields)
qed

text \<open>
  Claim C5. Requests whose times are all less than one interval (100 ms) apart lead to at
  most one executed capture, whatever the state; with live updating on and the canvas in
  place, requests that are each at least one interval after the one before (the first one
  after the last capture) are all executed; and a request that comes less than one interval
  after the last capture leaves the state as it is, so nothing is queued or deferred.
\<close>

theorem capture_throttle:
  "(within_interval ts \<longrightarrow> length (rendered (requests ts s)) \<le> length (rendered s) + 1)
   \<and> (isLiveUpdating s' \<and> thumbnailCanvas s' \<noteq> None \<and> thumbnailCtx s' \<noteq> None
        \<and> spaced (lastThumbnailUpdate s') us
      \<longrightarrow> length (rendered (requests us s')) = length (rendered s') + length us)
   \<and> (now - lastThumbnailUpdate s'' < THUMBNAIL_UPDATE_INTERVAL
      \<longrightarrow> updateThumbnailFromViewport now s'' = s'')"
  using requests_within [of ts s] requests_spaced [of s' us] update_dropped [of now s'']
  by auto

text \<open>Three requests within 100 ms, three requests 100 ms or more apart, and a dropped one.\<close>

theorem capture_throttle_witness:
  "length (rendered (requests [1000, 1030, 1099] (startup canvas0))) \<le> 1
   \<and> length (rendered (requests [1000, 1100, 1250] (startup canvas0))) = 3
   \<and> updateThumbnailFromViewport 1050 app1 = app1"
proof -
  have w: "within_interval [1000, 1030, 1099]"
    by (simp add: within_interval_def THUMBNAIL_UPDATE_INTERVAL_def)
  have g: "isLiveUpdating (startup canvas0) \<and> thumbnailCanvas (startup canvas0) \<noteq> None
      \<and> thumbnailCtx (startup canvas0) \<noteq> None
      \<and> spaced (lastThumbnailUpdate (startup canvas0)) [1000, 1100, 1250]"
    by (simp add: startup_def THUMBNAIL_UPDATE_INTERVAL_def)
  have l: "lastThumbnailUpdate app1 = 1000"
    by code_simp
  have r: "rendered (startup canvas0) = []"
    by (simp add: startup_def)
  show ?thesis
    using capture_throttle [of "[1000, 1030, 1099]" "startup canvas0" "startup canvas0"
        "[1000, 1100, 1250]" 1050 app1] w g l r
    by (simp add: THUMBNAIL_UPDATE_INTERVAL_def)
qed

lemma useSnapshot_runs:
  assumes "newSnapshotData s \<noteq> None" "thumbnailCanvas s \<noteq> None" "thumbnailCtx s \<noteq> None"
  shows "useSnapshot s = (renderThumbnail None True (renderThumbnail (Some False) False s),
                          map_option surface (thumbnailCanvas (renderThumbnail (Some False) False s)))"
  using assms by (simp add: useSnapshot_def Let_def)

lemma render_after_export:
  "renderThumbnail None True (renderThumbnail (Some False) False s) = renderThumbnail None True s"
  by (cases "thumbnailCanvas s"; cases "thumbnailCtx s"; cases "thumbnailImage s")
     (simp_all add: renderThumbnail_def Let_def drawSnapshot_def drawGuides_def fillBackground_def
       clearRect_def drawOn_def)

lemma export_surface:
  assumes "thumbnailCanvas s = Some c" "thumbnailCtx s = Some ctx" "thumbnailImage s = Some img"
  shows "\<exists>x y w h. map_option surface (thumbnailCanvas (renderThumbnail (Some False) False s))
         = Some [DrawImage img x y w h (globalAlpha ctx)]"
  using assms
  by (simp add: renderThumbnail_def Let_def drawSnapshot_def drawGuides_def fillBackground_def
       clearRect_def drawOn_def)

lemma update_fields:
  "background (updateThumbnailFromViewport now s) = background s"
  "gridHelper (updateThumbnailFromViewport now s) = gridHelper s"
  "clearColor (updateThumbnailFromViewport now s) = clearColor s
   \<or> clearColor (updateThumbnailFromViewport now s) = (1184274, 1)"
  by (simp_all add: updateThumbnailFromViewport_def capture_fields)

lemma renderThumbnail_app [simp]:
  "clearColor (renderThumbnail g b s) = clearColor s"
  "background (renderThumbnail g b s) = background s"
  "gridHelper (renderThumbnail g b s) = gridHelper s"
  by (simp_all add: renderThumbnail_def Let_def split: option.splits)

lemma step_clearColor:
  assumes "clearColor s = (1184274, 1)"
  shows "clearColor (step e s) = (1184274, 1)"
proof (cases e)
  case (Capture now)
  then show ?thesis using update_fields(3) [of now s] assms by auto
next
  case (ToggleGrid a)
  then show ?thesis using assms by (simp add: toggleGrid_def Let_def split: option.splits)
qed (use assms in \<open>simp_all add: guidesImage_onload_def thumbnailImage_onload_def onThumbnailMouseDown_def
      onThumbnailMouseMove_def onThumbnailMouseUp_def onThumbnailWheel_def useSnapshot_def
      clearThumbnailPreview_def Let_def split: option.splits\<close>)

lemma run_clearColor: "clearColor s = (1184274, 1) \<Longrightarrow> clearColor (run es s) = (1184274, 1)"
  by (induction es arbitrary: s) (simp_all add: step_clearColor)

lemma viewer_capture_fields:
  "scene_background (fst (viewer_capture v)) = scene_background v"
  "backgroundColor (fst (viewer_capture v)) = backgroundColor v"
  "state_grid (fst (viewer_capture v)) = state_grid v"
  "renderer_clearColor (fst (viewer_capture v)) = (backgroundColor v, 1)"
  "viewer_rendered (fst (viewer_capture v)) \<noteq> viewer_rendered v"
  "viewer_gridHelper v = None \<or> viewer_gridHelper v = Some (state_grid v)
     \<Longrightarrow> viewer_gridHelper (fst (viewer_capture v)) = viewer_gridHelper v"
  by (auto simp: viewer_capture_def Let_def)

lemma update_main_cases:
  assumes "viewer m = Some v"
  shows "updateThumbnailFromViewport_main now m = m
       \<or> viewer (updateThumbnailFromViewport_main now m) = Some (fst (viewer_capture v))"
  using assms
  by (auto simp: updateThumbnailFromViewport_main_def Let_def split: if_splits prod.splits)

text \<open>
  Claim C3, as amended. A capture request of \<open>app.js\<close> leaves the scene background and
  the grid's visibility as they were, and leaves the clear colour as it was or sets it to
  the opaque \<open>0x121212\<close>; in every state that \<open>app.js\<close> reaches from its start the
  clear colour is unchanged. A capture request of the page script on the viewer leaves the
  scene background, the viewer's background colour and the grid option as they were, and
  leaves the grid helper as it was when there is none or when it is in the scene exactly
  if the grid option is on. It leaves the clear colour as it was or sets it to the viewer's
  background colour with alpha 1; the clear colour is unchanged when it was that colour
  with alpha 1 before; and when the capture is executed, the clear colour is that colour
  afterwards and a capture request that follows leaves it unchanged.
\<close>

theorem capture_restores:
  "background (updateThumbnailFromViewport now s) = background s
   \<and> gridHelper (updateThumbnailFromViewport now s) = gridHelper s
   \<and> (clearColor (updateThumbnailFromViewport now s) = clearColor s
      \<or> clearColor (updateThumbnailFromViewport now s) = (1184274, 1))
   \<and> clearColor (updateThumbnailFromViewport now (run es (startup c)))
       = clearColor (run es (startup c))
   \<and> (viewer m = Some v \<longrightarrow>
        (\<exists>v'. viewer (updateThumbnailFromViewport_main now m) = Some v'
            \<and> scene_background v' = scene_background v
            \<and> backgroundColor v' = backgroundColor v
            \<and> state_grid v' = state_grid v
            \<and> (viewer_gridHelper v = None \<or> viewer_gridHelper v = Some (state_grid v)
                \<longrightarrow> viewer_gridHelper v' = viewer_gridHelper v)
            \<and> (renderer_clearColor v' = renderer_clearColor v
                \<or> renderer_clearColor v' = (backgroundColor v, 1))
            \<and> (renderer_clearColor v = (backgroundColor v, 1)
                \<longrightarrow> renderer_clearColor v' = renderer_clearColor v)
            \<and> (viewer_rendered v' \<noteq> viewer_rendered v
                \<longrightarrow> renderer_clearColor v' = (backgroundColor v, 1)
                  \<and> map_option renderer_clearColor
                        (viewer (updateThumbnailFromViewport_main now'
                                   (updateThumbnailFromViewport_main now m)))
                      = Some (renderer_clearColor v'))))"
proof -
  have inv: "clearColor (run es (startup c)) = (1184274, 1)"
    by (rule run_clearColor) (simp add: startup_def)
  have a: "clearColor (updateThumbnailFromViewport now (run es (startup c)))
       = clearColor (run es (startup c))"
    using update_fields(3) [of now "run es (startup c)"] inv by auto
  have b: "\<exists>v'. viewer (updateThumbnailFromViewport_main now m) = Some v'
            \<and> scene_background v' = scene_background v
            \<and> backgroundColor v' = backgroundColor v
            \<and> state_grid v' = state_grid v
            \<and> (viewer_gridHelper v = None \<or> viewer_gridHelper v = Some (state_grid v)
                \<longrightarrow> viewer_gridHelper v' = viewer_gridHelper v)
            \<and> (renderer_clearColor v' = renderer_clearColor v
                \<or> renderer_clearColor v' = (backgroundColor v, 1))
            \<and> (renderer_clearColor v = (backgroundColor v, 1)
                \<longrightarrow> renderer_clearColor v' = renderer_clearColor v)
            \<and> (viewer_rendered v' \<noteq> viewer_rendered v
                \<longrightarrow> renderer_clearColor v' = (backgroundColor v, 1)
                  \<and> map_option renderer_clearColor
                        (viewer (updateThumbnailFromViewport_main now'
                                   (updateThumbnailFromViewport_main now m)))
                      = Some (renderer_clearColor v'))" if v: "viewer m = Some v"
  proof (cases "updateThumbnailFromViewport_main now m = m")
    case True
    then show ?thesis using v by simp
  next
    case False
    define v' where "v' = fst (viewer_capture v)"
    have v': "viewer (updateThumbnailFromViewport_main now m) = Some v'"
      using update_main_cases [OF v, of now] False by (simp add: v'_def)
    have c': "renderer_clearColor v' = (backgroundColor v, 1)" "backgroundColor v' = backgroundColor v"
      by (simp_all add: v'_def viewer_capture_fields)
    have "map_option renderer_clearColor
            (viewer (updateThumbnailFromViewport_main now' (updateThumbnailFromViewport_main now m)))
          = Some (renderer_clearColor v')"
      using update_main_cases [OF v', of now'] c' by (auto simp: v' viewer_capture_fields)
    then show ?thesis
      using v' c' viewer_capture_fields [of v] unfolding v'_def by auto
  qed
  show ?thesis using update_fields [of now s] a b by blast
qed

lemma main_viewers:
  "map_option renderer_clearColor (viewer main_grid_on) = Some (13421772, 1)"
  "map_option scene_background (viewer main_grid_on) = Some (Some BackgroundColor)"
  "map_option state_grid (viewer main_grid_on) = Some True"
  "map_option viewer_gridHelper (viewer main_grid_on) = Some (Some True)"
  "map_option state_grid (viewer main_grid_off) = Some False"
  "map_option viewer_gridHelper (viewer main_grid_off) = Some None"
  "map_option viewer_rendered (viewer main_grid_on) = Some []"
  "map_option viewer_rendered (viewer (updateThumbnailFromViewport_main 1000 main_grid_on))
   = Some [\<lparr>f_background = None, f_grid = False, f_clearColor = (0, 0)\<rparr>]"
  by code_simp+

text \<open>
  The first capture of the page script on the viewer: the clear colour is \<open>0xcccccc\<close>
  before it and \<open>0x121212\<close> after it. A capture after the background colour has been
  changed to \<open>0xffffff\<close>: the clear colour is \<open>0x121212\<close> before it and \<open>0xffffff\<close>
  after it.
\<close>

theorem capture_clear_color_counterexample:
  "map_option renderer_clearColor (viewer main_grid_on) = Some (13421772, 1)
   \<and> map_option renderer_clearColor
        (viewer (updateThumbnailFromViewport_main 1000 main_grid_on)) = Some (1184274, 1)
   \<and> map_option renderer_clearColor (viewer main_recoloured) = Some (1184274, 1)
   \<and> map_option renderer_clearColor
        (viewer (updateThumbnailFromViewport_main 2000 main_recoloured)) = Some (16777215, 1)"
  by code_simp

lemma app1_fields:
  "background app1 = Some 1184274" "gridHelper app1 = Some True" "clearColor app1 = (1184274, 1)"
  "lastThumbnailUpdate app1 = 1000" "isLiveUpdating app1"
  by code_simp+

lemma app2_fields:
  "background app2 = Some 1184274" "gridHelper app2 = Some False" "clearColor app2 = (1184274, 1)"
  "lastThumbnailUpdate app2 = 1000" "isLiveUpdating app2"
  by code_simp+

text \<open>
  Captures of \<open>app.js\<close> with the grid on (\<open>app1\<close>) and with the grid off (\<open>app2\<close>), and
  captures of the page script on the viewer with the grid on and with the grid off, the
  first of them followed by a second capture.
\<close>

theorem capture_restores_witness:
  "background (updateThumbnailFromViewport 2000 app1) = Some 1184274
   \<and> gridHelper (updateThumbnailFromViewport 2000 app1) = Some True
   \<and> gridHelper (updateThumbnailFromViewport 2000 app2) = Some False
   \<and> clearColor (updateThumbnailFromViewport 2000 (run [GuidesLoaded, Capture 1000] (startup canvas0)))
       = clearColor (run [GuidesLoaded, Capture 1000] (startup canvas0))
   \<and> map_option scene_background (viewer (updateThumbnailFromViewport_main 1000 main_grid_on))
       = Some (Some BackgroundColor)
   \<and> map_option state_grid (viewer (updateThumbnailFromViewport_main 1000 main_grid_on)) = Some True
   \<and> map_option viewer_gridHelper (viewer (updateThumbnailFromViewport_main 1000 main_grid_on))
       = Some (Some True)
   \<and> map_option state_grid (viewer (updateThumbnailFromViewport_main 1000 main_grid_off)) = Some False
   \<and> map_option viewer_gridHelper (viewer (updateThumbnailFromViewport_main 1000 main_grid_off))
       = Some None
   \<and> map_option renderer_clearColor
        (viewer (updateThumbnailFromViewport_main 2000 (updateThumbnailFromViewport_main 1000 main_grid_on)))
       = map_option renderer_clearColor (viewer (updateThumbnailFromViewport_main 1000 main_grid_on))"
proof -
  obtain v_on where on: "viewer main_grid_on = Some v_on"
    using main_viewers(1) by (cases "viewer main_grid_on") simp_all
  obtain v_off where off: "viewer main_grid_off = Some v_off"
    using main_viewers(5) by (cases "viewer main_grid_off") simp_all
  have n: "scene_background v_on = Some BackgroundColor" "state_grid v_on"
      "viewer_gridHelper v_on = Some True" "\<not> state_grid v_off" "viewer_gridHelper v_off = None"
      "viewer_rendered v_on = []"
    using main_viewers by (simp_all add: on off)
  from capture_restores [of 1000 app1 "[]" canvas0 main_grid_on v_on 2000] on
  obtain v' where v': "viewer (updateThumbnailFromViewport_main 1000 main_grid_on) = Some v'"
      "scene_background v' = scene_background v_on" "state_grid v' = state_grid v_on"
      "viewer_gridHelper v_on = None \<or> viewer_gridHelper v_on = Some (state_grid v_on)
         \<longrightarrow> viewer_gridHelper v' = viewer_gridHelper v_on"
      "viewer_rendered v' \<noteq> viewer_rendered v_on
         \<longrightarrow> map_option renderer_clearColor
               (viewer (updateThumbnailFromViewport_main 2000
                          (updateThumbnailFromViewport_main 1000 main_grid_on)))
             = Some (renderer_clearColor v')"
    by auto
  have "viewer_rendered v' \<noteq> viewer_rendered v_on"
    using main_viewers(8) by (simp add: v'(1) n)
  then have two: "map_option renderer_clearColor
      (viewer (updateThumbnailFromViewport_main 2000 (updateThumbnailFromViewport_main 1000 main_grid_on)))
      = map_option renderer_clearColor (viewer (updateThumbnailFromViewport_main 1000 main_grid_on))"
    using v'(5) by (simp add: v'(1))
  from capture_restores [of 1000 app1 "[]" canvas0 main_grid_off v_off 2000] off
  obtain w' where w': "viewer (updateThumbnailFromViewport_main 1000 main_grid_off) = Some w'"
      "state_grid w' = state_grid v_off"
      "viewer_gridHelper v_off = None \<or> viewer_gridHelper v_off = Some (state_grid v_off)
         \<longrightarrow> viewer_gridHelper w' = viewer_gridHelper v_off"
    by auto
  show ?thesis
    using capture_restores [of 2000 app1 "[GuidesLoaded, Capture 1000]" canvas0 main_grid_on v_on 2000]
      capture_restores [of 2000 app2 "[]" canvas0 main_grid_on v_on 2000]
      v' w' n two app1_fields app2_fields
    by auto
qed

lemma useSnapshot_image [simp]:
  "thumbnailOffset (fst (useSnapshot s)) = thumbnailOffset s"
  "thumbnailScale (fst (useSnapshot s)) = thumbnailScale s"
  "thumbnailImage (fst (useSnapshot s)) = thumbnailImage s"
  "newSnapshotData (fst (useSnapshot s)) = newSnapshotData s"
  by (simp_all add: useSnapshot_def Let_def)

lemma default_render_surface:
  assumes "thumbnailCanvas s = Some c" "thumbnailCtx s = Some ctx" "thumbnailImage s = Some img"
  shows "\<exists>c'. thumbnailCanvas (renderThumbnail None True s) = Some c'
            \<and> shows_background (surface c')
            \<and> shows_guides (surface c') = (showThumbnailGuides s \<and> guidesImage s = Some True)"
  using assms
  by (simp add: renderThumbnail_def Let_def drawSnapshot_def drawGuides_def fillBackground_def
       clearRect_def drawOn_def shows_guides_def shows_background_def)

text \<open>
  Claim C4, as amended. When the export runs on a state with a snapshot image, the surface
  read back holds the snapshot alone (no background, no guides); the state afterwards is
  that of a render with the default arguments, which draws the background and draws the
  guides exactly when \<open>showThumbnailGuides\<close> is set and the guides image is loaded;
  offset, scale and snapshot image are not changed; and when the canvas showed such a
  render before the export, the state after the export is the state before it.
\<close>

theorem useSnapshot_restores:
  assumes snap: "newSnapshotData s \<noteq> None"
      and c: "thumbnailCanvas s = Some c" and ctx: "thumbnailCtx s = Some ctx"
      and img: "thumbnailImage s = Some img"
  shows "(\<exists>x y w h. snd (useSnapshot s) = Some [DrawImage img x y w h (globalAlpha ctx)])
       \<and> fst (useSnapshot s) = renderThumbnail None True s
       \<and> thumbnailOffset (fst (useSnapshot s)) = thumbnailOffset s
       \<and> thumbnailScale (fst (useSnapshot s)) = thumbnailScale s
       \<and> thumbnailImage (fst (useSnapshot s)) = thumbnailImage s
       \<and> (\<exists>c'. thumbnailCanvas (fst (useSnapshot s)) = Some c'
              \<and> shows_background (surface c')
              \<and> shows_guides (surface c') = (showThumbnailGuides s \<and> guidesImage s = Some True))
       \<and> (renderThumbnail None True s = s \<longrightarrow> fst (useSnapshot s) = s)"
proof -
  have u: "useSnapshot s = (renderThumbnail None True s,
                          map_option surface (thumbnailCanvas (renderThumbnail (Some False) False s)))"
    using useSnapshot_runs [of s] snap c ctx by (simp add: render_after_export)
  show ?thesis
    using export_surface [OF c ctx img] default_render_surface [OF c ctx img]
    by (simp add: u)
qed

lemma app12_canvas:
  "newSnapshotData app1 \<noteq> None" "newSnapshotData app2 \<noteq> None"
  "thumbnailCtx app1 = Some \<lparr>fillStyle = ''#121212'', globalAlpha = Num 1\<rparr>"
  "thumbnailCtx app2 = Some \<lparr>fillStyle = ''#121212'', globalAlpha = Num 1\<rparr>"
  "showThumbnailGuides app1" "\<not> showThumbnailGuides app2"
  "guidesImage app1 = Some True" "guidesImage app2 = Some True"
  by code_simp+

text \<open>
  With the grid switched off (\<open>app2\<close>) the composite that the export leaves behind has no
  guides. When the grid is switched off while the canvas element is not \<open>active\<close>
  (\<open>app2_stale\<close>), the canvas still shows the guides before the export and no longer
  shows them after it.
\<close>

theorem useSnapshot_guides_counterexample:
  "\<not> showThumbnailGuides app2
   \<and> map_option (shows_guides \<circ> surface) (thumbnailCanvas (fst (useSnapshot app2))) = Some False
   \<and> map_option (shows_guides \<circ> surface) (thumbnailCanvas app2_stale) = Some True
   \<and> map_option (shows_guides \<circ> surface) (thumbnailCanvas (fst (useSnapshot app2_stale))) = Some False"
  by code_simp

text \<open>The export on \<open>app1\<close>, whose canvas shows the default render.\<close>

theorem useSnapshot_restores_witness:
  "fst (useSnapshot app1) = app1
   \<and> (\<exists>x y w h. snd (useSnapshot app1) = Some [DrawImage image1 x y w h (Num 1)])
   \<and> (\<exists>c'. thumbnailCanvas (fst (useSnapshot app1)) = Some c'
          \<and> shows_background (surface c') \<and> shows_guides (surface c'))"
  using useSnapshot_restores [OF app12_canvas(1) app1_canvas(1) app12_canvas(3) app1_canvas(2)]
    app1_canvas(3) app12_canvas(5,7)
  by auto

lemma export_example:
  "snd (useSnapshot app3)
   = Some [DrawImage (image1\<lparr>img_width := Num 100, img_height := Num 100\<rparr>)
             (Num (- 290)) (Num (- 305)) (Num 1200) (Num 1200) (Num 1)]"
  by code_simp

section \<open>Properties of loading\<close>

lemma remove_first_prefix:
  "starts_with pat s \<Longrightarrow> remove_first pat s = drop (length pat) s"
  by (cases s; cases pat) simp_all

lemma objectURLs_revokeAll:
  "objectURLs (revokeAll us br) u = (if u \<in> set us then None else objectURLs br u)"
  by (induction us arbitrary: br) simp_all

lemma onLoad_revokes:
  assumes "onLoad g us (v, br) = Inr (v', br')" and "u \<in> set us"
  shows "objectURLs br' u = None"
  using assms
  by (auto simp: onLoad_def Let_def objectURLs_revokeAll split: option.splits list.splits sum.splits)

text \<open>
  Claim C8, as amended. For a URL that \<open>decodeURI\<close> accepts, the modifier removes the
  first occurrence of the base URL from the decoded URL (the prefix, when the decoded URL
  starts with it), removes a leading \<open>./\<close> or \<open>/\<close>, prepends the root path and looks
  the result up in the asset map. When it is found, the modifier returns the object URL the
  browser creates next for the blob and records it in \<open>blobURLs\<close>; when it is not, the
  modifier returns the path argument, if any, followed by the URL as it was given. The
  recorded object URLs are revoked by the success callback of \<open>load\<close>; a failed load
  leaves them as they are.
\<close>

theorem urlModifier_resolves:
  assumes dec: "decodeURI url = Inr decoded"
  shows "(assetMap (rootPath @ strip_leading (remove_first baseURL decoded)) = Some blob \<longrightarrow>
            urlModifier decodeURI baseURL rootPath assetMap url path (blobURLs, br)
            = Inr (BlobURL (created br), blobURLs @ [created br],
                   br\<lparr>created := Suc (created br),
                      objectURLs := (objectURLs br)(created br \<mapsto> blob)\<rparr>))
       \<and> (assetMap (rootPath @ strip_leading (remove_first baseURL decoded)) = None \<longrightarrow>
            urlModifier decodeURI baseURL rootPath assetMap url path (blobURLs, br)
            = Inr (Plain ((case path of None \<Rightarrow> [] | Some p \<Rightarrow> p) @ url), blobURLs, br))
       \<and> (starts_with baseURL decoded \<longrightarrow>
            remove_first baseURL decoded = drop (length baseURL) decoded)
       \<and> strip_leading (''./'' @ rest) = rest
       \<and> strip_leading (''/'' @ rest) = rest
       \<and> (onLoad g us (v, br) = Inr (v', br') \<and> u \<in> set us \<longrightarrow> objectURLs br' u = None)
       \<and> snd (load Failed us (v, br)) = (v, br)"
proof -
  have "strip_leading (''./'' @ rest) = rest" "strip_leading (''/'' @ rest) = rest"
    by (simp_all add: strip_leading_def)
  moreover have "snd (load Failed us (v, br)) = (v, br)"
    by (simp add: load_def)
  ultimately show ?thesis
    using remove_first_prefix [of baseURL decoded] onLoad_revokes [of g us v br v' br' u]
    by (simp add: urlModifier_def dec createObjectURL_def Let_def)
qed

text \<open>
  The URL \<open>/tex.png\<close> with the asset \<open>tex.png\<close> in the map: the modifier strips the
  leading \<open>/\<close> and returns an object URL, where the procedure of the specification
  passes the URL through.
\<close>

theorem urlModifier_counterexample:
  "map_sum id fst (urlModifier (\<lambda>u. Inr u) ''models/'' '''' [''tex.png'' \<mapsto> (7::nat)] ''/tex.png'' None
      ([], \<lparr>created = 0, objectURLs = Map.empty\<rparr>)) = Inr (BlobURL 0)
   \<and> map_sum id fst (spec_urlModifier (\<lambda>u. Inr u) ''models/'' '''' [''tex.png'' \<mapsto> (7::nat)] ''/tex.png'' None
      ([], \<lparr>created = 0, objectURLs = Map.empty\<rparr>)) = Inr (Plain ''/tex.png'')"
  by (simp add: urlModifier_def spec_urlModifier_def spec_normalize_def strip_leading_def
      createObjectURL_def Let_def)

text \<open>A URL that is found in the asset map, one that is not, and a revocation.\<close>

theorem urlModifier_resolves_witness:
  "map_sum id fst (urlModifier (\<lambda>u. Inr u) ''models/'' '''' [''tex.png'' \<mapsto> (7::nat)]
      ''models/./tex.png'' None ([], \<lparr>created = 0, objectURLs = Map.empty\<rparr>)) = Inr (BlobURL 0)
   \<and> map_sum id fst (urlModifier (\<lambda>u. Inr u) ''models/'' '''' [''tex.png'' \<mapsto> (7::nat)]
      ''models/other.png'' None ([], \<lparr>created = 0, objectURLs = Map.empty\<rparr>)) = Inr (Plain ''models/other.png'')
   \<and> remove_first ''models/'' ''models/./tex.png'' = ''./tex.png''
   \<and> map_sum id (\<lambda>st. objectURLs (snd st) 0)
        (onLoad scene_gltf [0] (new_Viewer, \<lparr>created = 1, objectURLs = [0 \<mapsto> (7::nat)]\<rparr>)) = Inr None"
proof -
  have a: "[''tex.png'' \<mapsto> (7::nat)] ('''' @ strip_leading (remove_first ''models/'' ''models/./tex.png'')) = Some 7"
    by (simp add: strip_leading_def)
  have b: "[''tex.png'' \<mapsto> (7::nat)] ('''' @ strip_leading (remove_first ''models/'' ''models/other.png'')) = None"
    by (simp add: strip_leading_def)
  have c: "starts_with ''models/'' ''models/./tex.png''" by simp
  obtain v' br' where d: "onLoad scene_gltf [0] (new_Viewer, \<lparr>created = 1, objectURLs = [0 \<mapsto> (7::nat)]\<rparr>) = Inr (v', br')"
    by (simp add: onLoad_def scene_gltf_def Viewer_setContent_def updateDisplay_def clear_def
        new_Viewer_def)
  have e: "(0::nat) \<in> set [0]" by simp
  show ?thesis
    using urlModifier_resolves [of "\<lambda>u. Inr u" "''models/./tex.png''" "''models/./tex.png''"
        "[''tex.png'' \<mapsto> (7::nat)]" "''''" "''models/''" 7 None "[]" "\<lparr>created = 0, objectURLs = Map.empty\<rparr>"
        "[]" scene_gltf "[0]" new_Viewer v' br' 0]
      urlModifier_resolves [of "\<lambda>u. Inr u" "''models/other.png''" "''models/other.png''"
        "[''tex.png'' \<mapsto> (7::nat)]" "''''" "''models/''" 7 None "[]" "\<lparr>created = 0, objectURLs = Map.empty\<rparr>"
        "[]" scene_gltf "[0]" new_Viewer v' br' 0]
      urlModifier_resolves [of "\<lambda>u. Inr u" "''models/./tex.png''" "''models/./tex.png''"
        "[''tex.png'' \<mapsto> (7::nat)]" "''''" "''models/''" 7 None "[]" "\<lparr>created = 1, objectURLs = [0 \<mapsto> (7::nat)]\<rparr>"
        "[]" scene_gltf "[0]" new_Viewer v' br' 0]
      a b c d e
    by simp
qed

lemma load_failure_state: "fst (load out us st) = Inl e \<Longrightarrow> snd (load out us st) = st"
  by (auto simp: load_def split: outcome.splits sum.splits)

lemma load_success_attached:
  "fst (load out us st) = Inr g \<Longrightarrow> \<exists>sc. attached (fst (snd (load out us st))) = Some (setContent sc)"
  by (auto simp: load_def onLoad_def Viewer_setContent_def updateDisplay_def clear_def Let_def
      split: outcome.splits sum.splits option.splits list.splits)

lemma loadModel_hides_indicator:
  "loadModel url out s = Inr s' \<Longrightarrow> loadingIndicator s' = map_option (\<lambda>_. False) (loadingIndicator s)"
  by (auto simp: loadModel_def Let_def hideLoadingIndicator_def showLoadingIndicator_def
      clearThumbnailPreview_def option.map_comp o_def split: option.splits sum.splits prod.splits)

lemma loadModel_failure_silent:
  "loadModel url Failed s = Inr s' \<Longrightarrow> alerts s' = alerts s"
  by (auto simp: loadModel_def Let_def hideLoadingIndicator_def showLoadingIndicator_def
      clearThumbnailPreview_def load_def split: option.splits)

text \<open>
  Claim C9. When the load fails, or the asset has no scene, \<open>loadModel\<close> hides the
  loading indicator and attaches nothing, but shows no message: the error goes to
  \<open>console.error\<close> only. \<open>handleFileUpload\<close> shows an alert in the same situation.
\<close>

theorem loadModel_failure_not_shown:
  "(case loadModel ''/missing.gltf'' Failed (main_startup canvas0) of
      Inl e \<Rightarrow> False
    | Inr s \<Rightarrow> alerts s = [] \<and> console_errors s = [''Error loading model:'']
              \<and> loadingIndicator s = Some False \<and> map_option attached (viewer s) = Some None)
   \<and> (case loadModel ''/empty.gltf'' (Parsed no_scene) (main_startup canvas0) of
      Inl e \<Rightarrow> False
    | Inr s \<Rightarrow> alerts s = [] \<and> console_errors s = [''Error loading model:'']
              \<and> loadingIndicator s = Some False \<and> map_option attached (viewer s) = Some None)
   \<and> (case handleFileUpload ''blob:0'' Failed [] \<lparr>created = 0, objectURLs = (Map.empty :: nat \<rightharpoonup> unit)\<rparr>
             (main_startup canvas0) of
      Inl e \<Rightarrow> False
    | Inr s \<Rightarrow> alerts s = [''Error loading model: ''] \<and> loadingIndicator s = Some False)"
  by (simp add: loadModel_def handleFileUpload_def load_def onLoad_def no_scene_def main_startup_def
      new_Viewer_def Let_def hideLoadingIndicator_def showLoadingIndicator_def clearThumbnailPreview_def)

end
